theory Spec2Isabelle
  imports Complex_Main "HOL-Library.Sublist"
begin

section \<open>Shared JavaScript conventions\<close>

text \<open>
  Every \<^verbatim>\<open>throw\<close> of the source is a value: a function that can throw returns
  \<open>js_error + 'a\<close>, with \<open>Inl\<close> the thrown error. \<open>Thrown msg\<close> is
  \<^verbatim>\<open>new Error(msg)\<close> raised by the code itself (mostly through \<^verbatim>\<open>ensure\<close>);
  the other constructors are the errors the runtime or a library raises.
\<close>

datatype js_error =
    Thrown string
  | TypeError
  | ReferenceError
  | RangeError
  | DecimalError
  | ExternalFailure string

section \<open>Triangle orientation solver (engine/triArbitrage.js, solveTriangleOrientation)\<close>

text \<open>
  The solver reads only \<^verbatim>\<open>baseMint\<close> and \<^verbatim>\<open>quoteMint\<close> of a pool and compares
  mints with \<^verbatim>\<open>===\<close>; the record is extensible so that the same pools can carry the
  other fields elsewhere. The mint type is a parameter: \<^verbatim>\<open>===\<close> on strings (and on
  \<^verbatim>\<open>undefined\<close>) is equality.
\<close>

record 'm pool =
  baseMint :: 'm
  quoteMint :: 'm

record 'm triangle =
  startMint :: 'm
  inMints :: "'m list"

text \<open>
  \<^verbatim>\<open>tryStart\<close>, the closure over \<^verbatim>\<open>p1, p2, p3\<close>. Each
  \<^verbatim>\<open>if (curr === p.baseMint) ... else if (curr === p.quoteMint) ... else return null\<close>
  of the source is one test that a side of the pool matches, followed by the choice of
  the side, the base side first; \<open>in0, in1, in2\<close> are the elements of \<^verbatim>\<open>inMints\<close>
  and \<open>curr1, curr2, curr3\<close> the successive values of \<^verbatim>\<open>curr\<close>. The third pool is
  optional: destructuring an array of two pools leaves \<^verbatim>\<open>p3\<close> undefined, and reading
  \<^verbatim>\<open>p3.baseMint\<close> then throws a TypeError, but only when the walk reaches the third hop.
\<close>

definition tryStart ::
  "('m, 'a) pool_scheme \<Rightarrow> ('m, 'a) pool_scheme \<Rightarrow> ('m, 'a) pool_scheme option \<Rightarrow> 'm
    \<Rightarrow> js_error + 'm triangle option" where
  "tryStart p1 p2 p3o start =
    (if start = baseMint p1 \<or> start = quoteMint p1 then
       let in0 = (if start = baseMint p1 then baseMint p1 else quoteMint p1);
           curr1 = (if start = baseMint p1 then quoteMint p1 else baseMint p1)
       in
       if curr1 = baseMint p2 \<or> curr1 = quoteMint p2 then
         let in1 = (if curr1 = baseMint p2 then baseMint p2 else quoteMint p2);
             curr2 = (if curr1 = baseMint p2 then quoteMint p2 else baseMint p2)
         in
         (case p3o of
            None \<Rightarrow> Inl TypeError
          | Some p3 \<Rightarrow>
              if curr2 = baseMint p3 \<or> curr2 = quoteMint p3 then
                let in2 = (if curr2 = baseMint p3 then baseMint p3 else quoteMint p3);
                    curr3 = (if curr2 = baseMint p3 then quoteMint p3 else baseMint p3)
                in
                if curr3 \<noteq> start then Inr None
                else Inr (Some \<lparr>startMint = start, inMints = [in0, in1, in2]\<rparr>)
              else Inr None)
       else Inr None
     else Inr None)"

text \<open>
  \<^verbatim>\<open>const [p1, p2, p3] = pools; ... return tryStart(p1.baseMint) || tryStart(p1.quoteMint)\<close>.
  With no pool, \<^verbatim>\<open>p1.baseMint\<close> throws; with one pool, the second hop reads
  \<^verbatim>\<open>p2.baseMint\<close> and throws (the first hop from a mint of \<^verbatim>\<open>p1\<close> always matches).
  Elements past the third are ignored.
\<close>

definition orElse ::
  "js_error + 'b option \<Rightarrow> js_error + 'b option \<Rightarrow> js_error + 'b option" where
  "orElse a b = (case a of Inl e \<Rightarrow> Inl e | Inr (Some t) \<Rightarrow> Inr (Some t) | Inr None \<Rightarrow> b)"

fun solveTriangleOrientation ::
  "('m, 'a) pool_scheme list \<Rightarrow> js_error + 'm triangle option" where
  "solveTriangleOrientation [] = Inl TypeError"
| "solveTriangleOrientation [p1] = Inl TypeError"
| "solveTriangleOrientation [p1, p2] =
     orElse (tryStart p1 p2 None (baseMint p1)) (tryStart p1 p2 None (quoteMint p1))"
| "solveTriangleOrientation (p1 # p2 # p3 # rest) =
     orElse (tryStart p1 p2 (Some p3) (baseMint p1)) (tryStart p1 p2 (Some p3) (quoteMint p1))"

text \<open>\<^verbatim>\<open>validateTriangle\<close>: throws when the solver returns \<^verbatim>\<open>null\<close>.\<close>

definition validateTriangle ::
  "('m, 'a) pool_scheme list \<Rightarrow> js_error + 'm triangle" where
  "validateTriangle pools =
    (case solveTriangleOrientation pools of
       Inl e \<Rightarrow> Inl e
     | Inr None \<Rightarrow> Inl (Thrown ''Invalid Triangle Orientation'')
     | Inr (Some t) \<Rightarrow> Inr t)"

subsection \<open>The solver as the specification words it\<close>

text \<open>
  One hop of the walk: the current mint has to be one side of the pool, and the walk
  advances to the other side (the base side is looked at first).
\<close>

definition hop :: "('m, 'a) pool_scheme \<Rightarrow> 'm \<Rightarrow> 'm option" where
  "hop p cur =
    (if cur = baseMint p then Some (quoteMint p)
     else if cur = quoteMint p then Some (baseMint p)
     else None)"

text \<open>
  The walk pool1, pool2, pool3 from a start mint: the list of the mints entered at each
  hop when all three hops are possible and the third one ends on the start mint.
\<close>

definition closes ::
  "('m, 'a) pool_scheme \<Rightarrow> ('m, 'a) pool_scheme \<Rightarrow> ('m, 'a) pool_scheme \<Rightarrow> 'm \<Rightarrow> 'm list option" where
  "closes p1 p2 p3 start =
    (case hop p1 start of
       None \<Rightarrow> None
     | Some c1 \<Rightarrow>
        (case hop p2 c1 of
           None \<Rightarrow> None
         | Some c2 \<Rightarrow>
            (case hop p3 c2 of
               None \<Rightarrow> None
             | Some c3 \<Rightarrow> if c3 = start then Some [start, c1, c2] else None)))"

definition solve_spec ::
  "('m, 'a) pool_scheme \<Rightarrow> ('m, 'a) pool_scheme \<Rightarrow> ('m, 'a) pool_scheme \<Rightarrow> 'm triangle option" where
  "solve_spec p1 p2 p3 =
    (case closes p1 p2 p3 (baseMint p1) of
       Some ms \<Rightarrow> Some \<lparr>startMint = baseMint p1, inMints = ms\<rparr>
     | None \<Rightarrow>
        (case closes p1 p2 p3 (quoteMint p1) of
           Some ms \<Rightarrow> Some \<lparr>startMint = quoteMint p1, inMints = ms\<rparr>
         | None \<Rightarrow> None))"

section \<open>Loosely typed pool records\<close>

text \<open>
  A field of a pool record that holds a number is absent (\<^verbatim>\<open>undefined\<close> or
  \<^verbatim>\<open>null\<close>), a JavaScript number, a string that spells a decimal number in plain
  decimal notation, or a string \<open>Malformed\<close> that holds a non-blank character and does
  not begin with a number (such as \<^verbatim>\<open>'abc'\<close>): \<^verbatim>\<open>new Decimal\<close> rejects it and
  \<^verbatim>\<open>parseFloat\<close> reads it as NaN. The numbers are finite decimals. Blank strings, and
  strings that only begin with a number (\<^verbatim>\<open>'12abc'\<close>), are outside of the model.
\<close>

datatype num_field = Nullish | Malformed | Num rat | NumText rat

text \<open>\<^verbatim>\<open>a ?? b\<close>: the first operand unless it is nullish.\<close>

definition nullish_or :: "num_field \<Rightarrow> num_field \<Rightarrow> num_field" where
  "nullish_or a b = (case a of Nullish \<Rightarrow> b | _ \<Rightarrow> a)"

definition nullish_or_str :: "string option \<Rightarrow> string option \<Rightarrow> string option" where
  "nullish_or_str a b = (case a of None \<Rightarrow> b | Some v \<Rightarrow> Some v)"

text \<open>JavaScript truthiness: a number unless zero, a string unless empty.\<close>

definition truthy :: "num_field \<Rightarrow> bool" where
  "truthy v = (case v of Nullish \<Rightarrow> False | Malformed \<Rightarrow> True | Num r \<Rightarrow> r \<noteq> 0 | NumText r \<Rightarrow> True)"

definition truthy_str :: "string \<Rightarrow> bool" where
  "truthy_str s = (s \<noteq> [])"

text \<open>
  The fields of a pool record that the classifier, the hydration pass and the cpmm
  adapter read. A field of the nested \<^verbatim>\<open>raw\<close> object is absent when \<^verbatim>\<open>raw\<close>
  itself is (\<^verbatim>\<open>p?.raw?.dex\<close>); \<open>raw_original_dex\<close> is \<^verbatim>\<open>raw._original.dex\<close>.
\<close>

record pool_data =
  dex :: "string option"
  raw_dex :: "string option"
  raw_original_dex :: "string option"
  type :: "string option"
  poolType :: "string option"
  raw_type :: "string option"
  raw_poolType :: "string option"
  raw_original_type :: "string option"
  binStep :: num_field
  raw_bin_step :: num_field
  tickSpacing :: num_field
  raw_tickSpacing :: num_field
  feeBps :: num_field
  fee_bps :: num_field
  raw_feeBps :: num_field
  xReserve :: num_field
  baseReserve :: num_field
  reserve_x :: num_field
  raw_reserve_x :: num_field
  raw_baseReserve :: num_field
  yReserve :: num_field
  quoteReserve :: num_field
  reserve_y :: num_field
  raw_reserve_y :: num_field
  raw_quoteReserve :: num_field
  baseDecimals :: num_field
  decimalsA :: num_field
  raw_baseDecimals :: num_field
  raw_decimalsA :: num_field
  decA :: num_field
  quoteDecimals :: num_field
  decimalsB :: num_field
  raw_quoteDecimals :: num_field
  raw_decimalsB :: num_field
  decB :: num_field
  reserveSource :: "string option"
  hasReserves :: bool
  isMathReady :: bool

text \<open>The record \<^verbatim>\<open>{}\<close>: every field absent.\<close>

definition empty_pool :: pool_data where
  "empty_pool =
    \<lparr>dex = None, raw_dex = None, raw_original_dex = None, type = None, poolType = None,
     raw_type = None, raw_poolType = None, raw_original_type = None,
     binStep = Nullish, raw_bin_step = Nullish, tickSpacing = Nullish, raw_tickSpacing = Nullish,
     feeBps = Nullish, fee_bps = Nullish, raw_feeBps = Nullish,
     xReserve = Nullish, baseReserve = Nullish, reserve_x = Nullish, raw_reserve_x = Nullish,
     raw_baseReserve = Nullish,
     yReserve = Nullish, quoteReserve = Nullish, reserve_y = Nullish, raw_reserve_y = Nullish,
     raw_quoteReserve = Nullish,
     baseDecimals = Nullish, decimalsA = Nullish, raw_baseDecimals = Nullish,
     raw_decimalsA = Nullish, decA = Nullish,
     quoteDecimals = Nullish, decimalsB = Nullish, raw_quoteDecimals = Nullish,
     raw_decimalsB = Nullish, decB = Nullish,
     reserveSource = None, hasReserves = False, isMathReady = False\<rparr>"

section \<open>Strings\<close>

text \<open>
  \<^verbatim>\<open>toLowerCase\<close> and \<^verbatim>\<open>toUpperCase\<close> on the ASCII letters (the variant and DEX
  names are ASCII), and \<^verbatim>\<open>s.includes(t)\<close> as the contiguous-sublist test.
\<close>

definition lower_char :: "char \<Rightarrow> char" where
  "lower_char c =
    (let n = (of_char c :: nat) in if 65 \<le> n \<and> n \<le> 90 then char_of (n + 32) else c)"

definition upper_char :: "char \<Rightarrow> char" where
  "upper_char c =
    (let n = (of_char c :: nat) in if 97 \<le> n \<and> n \<le> 122 then char_of (n - 32) else c)"

definition toLowerCase :: "string \<Rightarrow> string" where
  "toLowerCase s = map lower_char s"

definition toUpperCase :: "string \<Rightarrow> string" where
  "toUpperCase s = map upper_char s"

definition str_includes :: "string \<Rightarrow> string \<Rightarrow> bool" where
  "str_includes s t = sublist t s"

section \<open>Pool classifier (utils/_utils.js, normalizeDex and normalizeType)\<close>

definition normalizeDex :: "pool_data \<Rightarrow> string" where
  "normalizeDex p =
    (let d = toLowerCase
               (case nullish_or_str (dex p) (nullish_or_str (raw_dex p) (raw_original_dex p)) of
                  None \<Rightarrow> [] | Some v \<Rightarrow> v)
     in if \<not> truthy_str d then ''unknown''
        else if str_includes d ''meteora'' then ''meteora''
        else if str_includes d ''orca'' then ''orca''
        else if str_includes d ''raydium'' then ''raydium''
        else d)"

definition normalizeType :: "pool_data \<Rightarrow> string" where
  "normalizeType p =
    (let d = normalizeDex p in
     if d = ''orca'' then ''whirlpool''
     else
       let t = toLowerCase
                 (case nullish_or_str (type p) (nullish_or_str (poolType p)
                         (nullish_or_str (raw_type p) (nullish_or_str (raw_poolType p)
                            (raw_original_type p)))) of
                    None \<Rightarrow> [] | Some v \<Rightarrow> v)
       in if str_includes t ''dlmm'' then ''dlmm''
          else if str_includes t ''whirlpool'' \<or> str_includes t ''orca'' then ''whirlpool''
          else if str_includes t ''clmm'' then ''clmm''
          else if str_includes t ''cpmm'' \<or> str_includes t ''amm'' \<or> str_includes t ''constant'' then ''cpmm''
          else if truthy (binStep p) \<or> truthy (raw_bin_step p) then ''dlmm''
          else if truthy (tickSpacing p) \<or> truthy (raw_tickSpacing p) then ''whirlpool''
          else ''cpmm'')"

subsection \<open>The classifier as the specification words it\<close>

datatype variant = Cpmm | Dlmm | Clmm | Whirlpool

definition variant_name :: "variant \<Rightarrow> string" where
  "variant_name v =
    (case v of Cpmm \<Rightarrow> ''cpmm'' | Dlmm \<Rightarrow> ''dlmm'' | Clmm \<Rightarrow> ''clmm'' | Whirlpool \<Rightarrow> ''whirlpool'')"

text \<open>The explicit type text: the first of the type fields that is present, in lower case.\<close>

definition type_text :: "pool_data \<Rightarrow> string" where
  "type_text p =
    toLowerCase
      (case nullish_or_str (type p) (nullish_or_str (poolType p)
              (nullish_or_str (raw_type p) (nullish_or_str (raw_poolType p)
                 (raw_original_type p)))) of
         None \<Rightarrow> [] | Some v \<Rightarrow> v)"

definition dex_text :: "pool_data \<Rightarrow> string" where
  "dex_text p =
    toLowerCase
      (case nullish_or_str (dex p) (nullish_or_str (raw_dex p) (raw_original_dex p)) of
         None \<Rightarrow> [] | Some v \<Rightarrow> v)"

text \<open>The three resolution stages; each names a variant or passes.\<close>

definition explicit_stage :: "pool_data \<Rightarrow> variant option" where
  "explicit_stage p =
    (let t = type_text p in
     if str_includes t ''dlmm'' then Some Dlmm
     else if str_includes t ''whirlpool'' \<or> str_includes t ''orca'' then Some Whirlpool
     else if str_includes t ''clmm'' then Some Clmm
     else if str_includes t ''cpmm'' \<or> str_includes t ''amm'' \<or> str_includes t ''constant'' then Some Cpmm
     else None)"

definition dex_name_stage :: "pool_data \<Rightarrow> variant option" where
  "dex_name_stage p =
    (let d = dex_text p in
     if str_includes d ''meteora'' then Some Dlmm
     else if str_includes d ''orca'' then Some Whirlpool
     else None)"

definition structural_stage :: "pool_data \<Rightarrow> variant option" where
  "structural_stage p =
    (if truthy (binStep p) \<or> truthy (raw_bin_step p) then Some Dlmm
     else if truthy (tickSpacing p) \<or> truthy (raw_tickSpacing p) then Some Whirlpool
     else None)"

definition first_of :: "variant option list \<Rightarrow> variant" where
  "first_of stages = (case List.find (\<lambda>s. s \<noteq> None) stages of Some (Some v) \<Rightarrow> v | _ \<Rightarrow> Cpmm)"

text \<open>
  The order the specification gives: explicit type, then DEX name (meteora and orca),
  then structure, then the default.
\<close>

definition classify_spec :: "pool_data \<Rightarrow> variant" where
  "classify_spec p = first_of [explicit_stage p, dex_name_stage p, structural_stage p]"

text \<open>
  The order of the code: the DEX name orca first (and no rule for meteora), then the
  explicit type, then structure, then the default. A DEX text that names meteora before
  orca is normalised to meteora and does not force the whirlpool variant.
\<close>

definition orca_stage :: "pool_data \<Rightarrow> variant option" where
  "orca_stage p =
    (let d = dex_text p in
     if \<not> str_includes d ''meteora'' \<and> str_includes d ''orca'' then Some Whirlpool else None)"

definition classify_code_order :: "pool_data \<Rightarrow> variant" where
  "classify_code_order p = first_of [orca_stage p, explicit_stage p, structural_stage p]"

section \<open>Reserve hydration, final pass (utils/poolLoader.js, enrichReserves)\<close>

text \<open>
  \<^verbatim>\<open>parseFloat(v || 0)\<close>: a falsy field reads as 0, text that spells no number as NaN
  (\<open>None\<close>). Only the sign of the result is used, which \<^verbatim>\<open>parseFloat\<close> preserves for
  amounts in the range of a double.
\<close>

definition parseFloat_or_0 :: "num_field \<Rightarrow> rat option" where
  "parseFloat_or_0 v =
    (if truthy v then (case v of Num r \<Rightarrow> Some r | NumText r \<Rightarrow> Some r | _ \<Rightarrow> None)
     else Some 0)"

text \<open>\<^verbatim>\<open>x > 0 && isFinite(x)\<close>.\<close>

definition positive_finite :: "rat option \<Rightarrow> bool" where
  "positive_finite x = (case x of None \<Rightarrow> False | Some r \<Rightarrow> 0 < r)"

text \<open>
  The body of the loop \<^verbatim>\<open>// Final pass: mark all pools\<close>, which runs over every
  pool after the vault reads and the SDK hydration, whatever they did to the pool. The
  third operand of the condition on the type is the string literal \<^verbatim>\<open>'whirlpool'\<close>
  itself, as in the source, not a comparison with it.
\<close>

definition markPool :: "pool_data \<Rightarrow> pool_data" where
  "markPool pool0 =
    (let pool1 =
           (if \<not> (case reserveSource pool0 of None \<Rightarrow> False | Some s \<Rightarrow> truthy_str s)
            then pool0\<lparr>reserveSource :=
                   Some (if truthy (xReserve pool0) \<and> truthy (yReserve pool0)
                         then ''partial'' else ''none'')\<rparr>
            else pool0);
         x = parseFloat_or_0 (xReserve pool1);
         y = parseFloat_or_0 (yReserve pool1);
         pool2 = pool1\<lparr>hasReserves := positive_finite x \<and> positive_finite y\<rparr>;
         t = toLowerCase (case type pool2 of None \<Rightarrow> [] | Some s \<Rightarrow> s)
     in if t = ''cpmm'' \<or> t = ''dlmm'' \<or> truthy_str ''whirlpool''
        then pool2\<lparr>isMathReady := hasReserves pool2\<rparr>
        else pool2\<lparr>isMathReady := True\<rparr>)"

definition final_pass :: "pool_data list \<Rightarrow> pool_data list" where
  "final_pass pools = map markPool pools"

section \<open>Triangular route simulator (engine/triArbitrage.js, simulateTriangularRoute)\<close>

text \<open>
  \<^verbatim>\<open>D(x)\<close> of utils/_utils.js: a nullish argument is the decimal 0, text that spells
  no number makes \<^verbatim>\<open>new Decimal\<close> throw.
\<close>

definition D :: "num_field \<Rightarrow> js_error + rat" where
  "D v = (case v of Nullish \<Rightarrow> Inr 0 | Malformed \<Rightarrow> Inl DecimalError
                  | Num r \<Rightarrow> Inr r | NumText r \<Rightarrow> Inr r)"

text \<open>
  The arguments object. \<open>pools\<close> is \<open>None\<close> when the caller passes no array; a token is
  \<open>None\<close> unless it is a string; \<open>maxImpactPct\<close> is \<open>Nullish\<close> for an explicit
  \<^verbatim>\<open>null\<close> (an omitted one is the default 5).
\<close>

record route_args =
  pools :: "string pool list option"
  tokenA :: "string option"
  tokenB :: "string option"
  tokenC :: "string option"
  dxAtomic :: num_field
  maxImpactPct :: num_field
  execute :: bool

text \<open>
  A result object: \<^verbatim>\<open>{ok: false, reason, legs?}\<close> or
  \<^verbatim>\<open>{ok: true, legs, profitAtomic, profitPct, ...}\<close>. A failure without a
  \<^verbatim>\<open>legs\<close> property carries the empty list.
\<close>

datatype 'leg route_result =
    RouteFailure string "'leg list"
  | RouteSuccess "'leg list" rat rat

text \<open>
  The function body, statement by statement (lines 350 to 401 of the source).
  \<^item> \<^verbatim>\<open>pools[1], pools[2], pools[3] = pools;\<close> is a comma expression whose last
    operand assigns the array to its own index 3: it throws a TypeError when there is no
    array, and otherwise leaves the first three elements as they are and makes the
    length at least 4.
  \<^item> \<^verbatim>\<open>D(dxAtomic).floor()\<close> and \<^verbatim>\<open>validateTriangle(pools)\<close> may throw; the solver
    reads the first three elements only.
  \<^item> \<^verbatim>\<open>if (!pools || pools.length !== 3) return {ok: false, reason: 'need-3-pools'}\<close>
    then tests the length after the assignment.
  \<^item> The three remaining validations follow.
  \<^item> The argument object of the first \<^verbatim>\<open>simulateLeg\<close> call reads
    \<^verbatim>\<open>leg2.dyAtomic\<close>, and \<^verbatim>\<open>leg2\<close> is a \<^verbatim>\<open>const\<close> declared further down: the read
    throws a ReferenceError before any leg is simulated. The function's last statement is
    \<^verbatim>\<open>return {ok: false, reason: 'need-3-pools'}\<close>; the profit computation, the sanity
    guard and the success object stand after the function's closing brace.
\<close>

definition simulateTriangularRoute :: "route_args \<Rightarrow> js_error + 'leg route_result" where
  "simulateTriangularRoute a =
    (case pools a of
       None \<Rightarrow> Inl TypeError
     | Some ps \<Rightarrow>
        (let len = max (length ps) 4 in
         case D (dxAtomic a) of
           Inl e \<Rightarrow> Inl e
         | Inr dxA \<Rightarrow>
            (case validateTriangle (take 3 ps) of
               Inl e \<Rightarrow> Inl e
             | Inr triangle \<Rightarrow>
                if len \<noteq> 3 then Inr (RouteFailure ''need-3-pools'' [])
                else if \<not> (tokenA a \<noteq> None \<and> tokenB a \<noteq> None \<and> tokenC a \<noteq> None)
                  then Inr (RouteFailure ''missing-mints'' [])
                else if dxAtomic a = Nullish then Inr (RouteFailure ''missing-dx'' [])
                else if maxImpactPct a = Nullish then Inr (RouteFailure ''missing-max-impact'' [])
                else Inl ReferenceError)))"

section \<open>Flashloan execution planner (flash/flashloanSwapInstructions.fixed.js)\<close>

text \<open>Sequencing of calls that can throw, and \<^verbatim>\<open>ensure(cond, msg)\<close>.\<close>

definition bindE :: "js_error + 'a \<Rightarrow> ('a \<Rightarrow> js_error + 'b) \<Rightarrow> js_error + 'b" where
  "bindE m f = (case m of Inl e \<Rightarrow> Inl e | Inr v \<Rightarrow> f v)"

definition ensure :: "bool \<Rightarrow> string \<Rightarrow> js_error + unit" where
  "ensure cond msg = (if cond then Inr () else Inl (Thrown msg))"

text \<open>
  Decimal digits of an array index, for the messages \<^verbatim>\<open>routeLegs[${i}]...\<close>.
\<close>

function show_nat :: "nat \<Rightarrow> string" where
  "show_nat n =
    (if n < 10 then [char_of (48 + n)] else show_nat (n div 10) @ [char_of (48 + n mod 10)])"
  by pat_completeness auto
termination
  by (relation "measure id") auto

declare show_nat.simps [simp del]

text \<open>
  A route leg (hop). A string field is \<open>None\<close> when absent; an amount is \<open>None\<close> when
  \<^verbatim>\<open>== null\<close>; a list field is \<open>None\<close> when absent, and an array when present.
\<close>

record hop =
  poolAddress :: "string option"
  address :: "string option"
  hop_id :: "string option"
  inputMint :: "string option"
  outputMint :: "string option"
  amountInAtomic :: "int option"
  minOutAtomic :: "int option"
  dexType :: "string option"
  hop_dex :: "string option"
  binArraysPubkey :: "string list option"
  binArrays :: "string list option"
  quote_binArrays :: "string list option"

definition truthy_opt :: "string option \<Rightarrow> bool" where
  "truthy_opt v = (case v of None \<Rightarrow> False | Some s \<Rightarrow> truthy_str s)"

text \<open>\<^verbatim>\<open>a || b\<close> on optional strings, and on optional arrays (every array is truthy).\<close>

definition or_str :: "string option \<Rightarrow> string option \<Rightarrow> string option" where
  "or_str a b = (if truthy_opt a then a else b)"

definition or_list :: "'a list option \<Rightarrow> 'a list option \<Rightarrow> 'a list option" where
  "or_list a b = (case a of Some l \<Rightarrow> Some l | None \<Rightarrow> b)"

text \<open>
  The liquidity SDK and the chain library are external. \<open>'ix\<close> is the type of the
  instructions they produce. The argument object of \<^verbatim>\<open>inst.swap\<close>:
\<close>

record swap_params =
  inToken :: string
  outToken :: string
  inAmount :: int
  minOutAmount :: int
  lbPair :: string
  user :: string
  binArraysPubkey_param :: "string list"

text \<open>What \<^verbatim>\<open>inst.swap\<close> resolves to: the three shapes the code accepts, or another.\<close>

datatype 'ix swap_output =
    IsTransaction "'ix list"
  | HasInstructions "'ix list"
  | HasIxs "'ix list"
  | OtherShape

text \<open>
  A pool instance: its \<^verbatim>\<open>swap\<close> method, \<open>None\<close> when \<^verbatim>\<open>typeof inst.swap\<close> is not
  \<^verbatim>\<open>'function'\<close>.
\<close>

type_synonym 'ix dlmm_instance = "(swap_params \<Rightarrow> js_error + 'ix swap_output) option"

text \<open>
  The environment of the builders: the optional module \<^verbatim>\<open>@meteora-ag/dlmm\<close> with its
  \<^verbatim>\<open>create(connection, pubkey)\<close>, and which strings \<^verbatim>\<open>new PublicKey\<close> accepts.
  The payer is a \<^verbatim>\<open>PublicKey\<close> already, which \<^verbatim>\<open>pubkeyOf\<close> returns as it is.
\<close>

record 'ix sdk_env =
  MeteoraDlmm :: "(string \<Rightarrow> js_error + 'ix dlmm_instance) option"
  valid_pubkey :: "string \<Rightarrow> bool"

text \<open>
  The RPC connection, as far as the executor uses it. \<open>sendTransaction\<close> stands for
  compiling the message, signing and sending.
\<close>

datatype 'ix instruction =
    SetComputeUnitLimit int
  | SetComputeUnitPrice int
  | Ix 'ix

record send_options =
  skipPreflight_opt :: bool
  maxRetries_opt :: nat

record 'ix connection =
  getLatestBlockhash :: "js_error + string"
  sendTransaction :: "'ix instruction list \<Rightarrow> send_options \<Rightarrow> js_error + string"
  confirmTransaction :: "string \<Rightarrow> js_error + unit"

definition pubkeyOf :: "'ix sdk_env \<Rightarrow> string \<Rightarrow> js_error + string" where
  "pubkeyOf env k =
    (if valid_pubkey env k then Inr k else Inl (ExternalFailure ''Invalid public key input''))"

fun mapE :: "('a \<Rightarrow> js_error + 'b) \<Rightarrow> 'a list \<Rightarrow> js_error + 'b list" where
  "mapE f [] = Inr []"
| "mapE f (x # xs) = bindE (f x) (\<lambda>y. bindE (mapE f xs) (\<lambda>ys. Inr (y # ys)))"

text \<open>
  The compute budget, \<open>None\<close> when the argument is omitted; a field is \<open>None\<close> when
  \<^verbatim>\<open>== null\<close>, and an integer otherwise. The chain library encodes the unit limit as
  an unsigned 32-bit and the unit price as an unsigned 64-bit integer, and throws a
  \<^verbatim>\<open>RangeError\<close> for a value that does not fit.
\<close>

record computeBudget =
  unitLimit :: "int option"
  unitPriceMicroLamports :: "int option"

definition setComputeUnitLimit :: "int \<Rightarrow> js_error + 'ix instruction" where
  "setComputeUnitLimit units =
    (if 0 \<le> units \<and> units < 2 ^ 32 then Inr (SetComputeUnitLimit units) else Inl RangeError)"

definition setComputeUnitPrice :: "int \<Rightarrow> js_error + 'ix instruction" where
  "setComputeUnitPrice microLamports =
    (if 0 \<le> microLamports \<and> microLamports < 2 ^ 64
     then Inr (SetComputeUnitPrice microLamports) else Inl RangeError)"

text \<open>
  \<^verbatim>\<open>addComputeBudgetIxs\<close>; \<^verbatim>\<open>computeBudgetIxs\<close> of the route executor has the same
  body.
\<close>

definition addComputeBudgetIxs :: "computeBudget option \<Rightarrow> js_error + 'ix instruction list" where
  "addComputeBudgetIxs cb =
    (case cb of
       None \<Rightarrow> Inr []
     | Some b \<Rightarrow>
        bindE (case unitLimit b of
                 None \<Rightarrow> Inr []
               | Some u \<Rightarrow> bindE (setComputeUnitLimit u) (\<lambda>ix. Inr [ix])) (\<lambda>limitIxs.
        bindE (case unitPriceMicroLamports b of
                 None \<Rightarrow> Inr []
               | Some u \<Rightarrow> bindE (setComputeUnitPrice u) (\<lambda>ix. Inr [ix])) (\<lambda>priceIxs.
        Inr (limitIxs @ priceIxs))))"

definition buildMeteoraDlmmSwapIxs ::
  "'ix sdk_env \<Rightarrow> hop \<Rightarrow> string \<Rightarrow> 'c option \<Rightarrow> js_error + 'ix list" where
  "buildMeteoraDlmmSwapIxs env h payer conn =
    (case MeteoraDlmm env of
       None \<Rightarrow> Inl (Thrown ''Meteora DLMM: @meteora-ag/dlmm is not installed'')
     | Some create \<Rightarrow>
    bindE (ensure (conn \<noteq> None) ''Meteora DLMM: connection required'') (\<lambda>_.
    let poolAddr = or_str (poolAddress h) (or_str (address h) (hop_id h)) in
    bindE (ensure (truthy_opt poolAddr) ''Meteora DLMM: hop.poolAddress required'') (\<lambda>_.
    bindE (ensure (truthy_opt (inputMint h) \<and> truthy_opt (outputMint h))
             ''Meteora DLMM: hop.inputMint/outputMint required'') (\<lambda>_.
    bindE (ensure (amountInAtomic h \<noteq> None) ''Meteora DLMM: hop.amountInAtomic required'') (\<lambda>_.
    bindE (ensure (minOutAtomic h \<noteq> None) ''Meteora DLMM: hop.minOutAtomic required'') (\<lambda>_.
    bindE (pubkeyOf env (the poolAddr)) (\<lambda>poolKey.
    bindE (create poolKey) (\<lambda>inst.
    let binArrayList = or_list (binArraysPubkey h) (or_list (binArrays h) (quote_binArrays h)) in
    bindE (ensure (case binArrayList of None \<Rightarrow> False | Some l \<Rightarrow> l \<noteq> [])
             ''Meteora DLMM: missing bin arrays (hop.binArrays)'') (\<lambda>_.
    bindE (mapE (pubkeyOf env) (the binArrayList)) (\<lambda>binKeys.
    (case inst of
       None \<Rightarrow> Inl (Thrown ''Meteora DLMM: SDK did not expose inst.swap() in expected form'')
     | Some swap \<Rightarrow>
        bindE (pubkeyOf env (the (inputMint h))) (\<lambda>inKey.
        bindE (pubkeyOf env (the (outputMint h))) (\<lambda>outKey.
        bindE (pubkeyOf env (the poolAddr)) (\<lambda>lbKey.
        bindE (swap \<lparr>inToken = inKey, outToken = outKey,
                      inAmount = the (amountInAtomic h),
                      minOutAmount = the (minOutAtomic h),
                      lbPair = lbKey, user = payer,
                      binArraysPubkey_param = binKeys\<rparr>) (\<lambda>txOrObj.
        (case txOrObj of
           IsTransaction ixs \<Rightarrow> Inr ixs
         | HasInstructions ixs \<Rightarrow> Inr ixs
         | HasIxs ixs \<Rightarrow> Inr ixs
         | OtherShape \<Rightarrow>
             Inl (Thrown ''Meteora DLMM: SDK did not expose inst.swap() in expected form'')))))))))))))))))"

definition buildSwapIxForPool ::
  "'ix sdk_env \<Rightarrow> hop \<Rightarrow> string \<Rightarrow> 'c option \<Rightarrow> js_error + 'ix list" where
  "buildSwapIxForPool env h payer conn =
    bindE (ensure (truthy_opt (or_str (dexType h) (hop_dex h)))
             ''buildSwapIxForPool: hop.dexType/hop.dex required'') (\<lambda>_.
    let d = toUpperCase (case or_str (dexType h) (hop_dex h) of None \<Rightarrow> [] | Some v \<Rightarrow> v) in
    if str_includes d ''METEORA'' \<or> str_includes d ''DLMM''
    then buildMeteoraDlmmSwapIxs env h payer conn
    else Inl (Thrown (''buildSwapIxForPool: unsupported dex for fixed builder: '' @ d)))"

text \<open>
  The loop of \<^verbatim>\<open>buildFlashloanTx\<close> over the legs from index \<open>i\<close> on; the result is
  what is pushed on \<^verbatim>\<open>perHopIxs\<close>.
\<close>

fun perHopIxs ::
  "'ix sdk_env \<Rightarrow> string \<Rightarrow> 'c option \<Rightarrow> nat \<Rightarrow> hop list \<Rightarrow> js_error + 'ix list" where
  "perHopIxs env payer conn i [] = Inr []"
| "perHopIxs env payer conn i (h # rest) =
    bindE (ensure (amountInAtomic h \<noteq> None)
             (''routeLegs['' @ show_nat i @ ''].amountInAtomic missing'')) (\<lambda>_.
    bindE (ensure (minOutAtomic h \<noteq> None)
             (''routeLegs['' @ show_nat i @ ''].minOutAtomic missing'')) (\<lambda>_.
    bindE (buildSwapIxForPool env h payer conn) (\<lambda>ixs.
    bindE (perHopIxs env payer conn (Suc i) rest) (\<lambda>more. Inr (ixs @ more)))))"

text \<open>The argument object of the flashloan instruction builder.\<close>

record 'ix flash_request =
  flash_payer :: string
  flash_loanMint :: "string option"
  flash_loanAmountAtomic :: "int option"
  flash_borrowerProgramId :: "string option"
  callbackIxs :: "'ix list"

record keypair =
  publicKey :: string

record 'ix built_tx =
  tx :: "'ix instruction list"
  signers :: "keypair list"

definition optKey :: "'ix sdk_env \<Rightarrow> string option \<Rightarrow> js_error + string option" where
  "optKey env k =
    (if truthy_opt k then bindE (pubkeyOf env (the k)) (\<lambda>pk. Inr (Some pk)) else Inr None)"

text \<open>
  \<^verbatim>\<open>buildFlashloanTx\<close>. \<open>routeLegs\<close> is \<open>None\<close> when the argument is no array, the
  builder is \<open>None\<close> when it is no function. The options object carries no connection of
  its own, so the builders see the function's connection. The compute budget is encoded
  after the flashloan instruction has been built.
\<close>

definition buildFlashloanTx ::
  "'ix sdk_env \<Rightarrow> 'c option \<Rightarrow> keypair option \<Rightarrow> string option \<Rightarrow> int option
    \<Rightarrow> hop list option \<Rightarrow> ('ix flash_request \<Rightarrow> js_error + 'ix) option \<Rightarrow> string option
    \<Rightarrow> computeBudget option \<Rightarrow> js_error + 'ix built_tx" where
  "buildFlashloanTx env conn payerKeypair loanMint loanAmountAtomic routeLegs
      flashloanInstructionBuilder borrowerProgramId computeBudget =
    bindE (ensure (conn \<noteq> None) ''connection required'') (\<lambda>_.
    bindE (ensure (payerKeypair \<noteq> None) ''payerKeypair required'') (\<lambda>_.
    bindE (ensure (case routeLegs of None \<Rightarrow> False | Some legs \<Rightarrow> 0 < length legs)
             ''routeLegs[] required'') (\<lambda>_.
    bindE (ensure (flashloanInstructionBuilder \<noteq> None)
             ''flashloanInstructionBuilder function required'') (\<lambda>_.
    let payer = publicKey (the payerKeypair) in
    bindE (perHopIxs env payer conn 0 (the routeLegs)) (\<lambda>perHop.
    bindE (optKey env loanMint) (\<lambda>mintKey.
    bindE (optKey env borrowerProgramId) (\<lambda>borrowerKey.
    bindE (the flashloanInstructionBuilder
             \<lparr>flash_payer = payer, flash_loanMint = mintKey,
              flash_loanAmountAtomic = loanAmountAtomic,
              flash_borrowerProgramId = borrowerKey, callbackIxs = perHop\<rparr>) (\<lambda>flashIx.
    bindE (addComputeBudgetIxs computeBudget) (\<lambda>budgetIxs.
    Inr \<lparr>tx = budgetIxs @ [Ix flashIx], signers = [the payerKeypair]\<rparr>)))))))))"

text \<open>
  A leg is well-formed for a payer and a connection when it carries both of its amounts
  and its instruction builder succeeds, with the given instructions.
\<close>

definition hop_built :: "'ix sdk_env \<Rightarrow> string \<Rightarrow> 'c option \<Rightarrow> hop \<Rightarrow> 'ix list \<Rightarrow> bool" where
  "hop_built env payer conn h hixs \<longleftrightarrow>
     amountInAtomic h \<noteq> None \<and> minOutAtomic h \<noteq> None
     \<and> buildSwapIxForPool env h payer conn = Inr hixs"

section \<open>Route executor (flash/swapExecutor.fixed.js, executeRoute)\<close>

record exec_opts =
  skipPreflight :: bool
  maxRetries :: "nat option"
  skipConfirm :: bool

fun routeHopIxs ::
  "'ix sdk_env \<Rightarrow> string \<Rightarrow> 'c option \<Rightarrow> nat \<Rightarrow> hop list \<Rightarrow> js_error + 'ix list" where
  "routeHopIxs env payer conn i [] = Inr []"
| "routeHopIxs env payer conn i (h # rest) =
    bindE (ensure (amountInAtomic h \<noteq> None)
             (''executeRoute: routeLegs['' @ show_nat i @ ''].amountInAtomic missing'')) (\<lambda>_.
    bindE (ensure (minOutAtomic h \<noteq> None)
             (''executeRoute: routeLegs['' @ show_nat i @ ''].minOutAtomic missing'')) (\<lambda>_.
    bindE (buildSwapIxForPool env h payer conn) (\<lambda>ixs.
    bindE (routeHopIxs env payer conn (Suc i) rest) (\<lambda>more. Inr (ixs @ more)))))"

definition executeRoute ::
  "'ix sdk_env \<Rightarrow> 'ix connection option \<Rightarrow> keypair option \<Rightarrow> hop list option
    \<Rightarrow> computeBudget option \<Rightarrow> exec_opts \<Rightarrow> js_error + string" where
  "executeRoute env conn payer routeLegs computeBudget opts =
    bindE (ensure (conn \<noteq> None) ''executeRoute: connection required'') (\<lambda>_.
    bindE (ensure (payer \<noteq> None) ''executeRoute: payer required'') (\<lambda>_.
    bindE (ensure (case routeLegs of None \<Rightarrow> False | Some legs \<Rightarrow> length legs \<noteq> 0)
             ''executeRoute: routeLegs required'') (\<lambda>_.
    bindE (addComputeBudgetIxs computeBudget) (\<lambda>budgetIxs.
    bindE (routeHopIxs env (publicKey (the payer)) conn 0 (the routeLegs)) (\<lambda>hopIxs.
    let ixs = budgetIxs @ map Ix hopIxs in
    bindE (getLatestBlockhash (the conn)) (\<lambda>blockhash.
    bindE (sendTransaction (the conn) ixs
             \<lparr>skipPreflight_opt = skipPreflight opts,
              maxRetries_opt = (case maxRetries opts of None \<Rightarrow> 2 | Some n \<Rightarrow> n)\<rparr>) (\<lambda>sig.
    if \<not> skipConfirm opts
    then bindE (confirmTransaction (the conn) sig) (\<lambda>_. Inr sig)
    else Inr sig)))))))"

section \<open>Example data\<close>

text \<open>
  A stand-in SDK whose swap instruction is the pair of amounts it was asked to swap, a
  flashloan builder whose instruction is the list of the callback's amounts, and an RPC
  connection that accepts everything.
\<close>

definition example_env :: "int list sdk_env" where
  "example_env =
    \<lparr>MeteoraDlmm = Some (\<lambda>poolKey. Inr (Some (\<lambda>ps.
        Inr (HasInstructions [[inAmount ps, minOutAmount ps]])))),
     valid_pubkey = (\<lambda>k. True)\<rparr>"

definition example_flash :: "int list flash_request \<Rightarrow> js_error + int list" where
  "example_flash req = Inr (concat (callbackIxs req))"

definition example_rpc :: "int list connection" where
  "example_rpc =
    \<lparr>getLatestBlockhash = Inr ''blockhash'',
     sendTransaction = (\<lambda>ixs opts. Inr ''signature''),
     confirmTransaction = (\<lambda>sig. Inr ())\<rparr>"

definition example_payer :: keypair where
  "example_payer = \<lparr>publicKey = ''payer''\<rparr>"

definition example_leg :: "int \<Rightarrow> int \<Rightarrow> hop" where
  "example_leg amountIn minOut =
    \<lparr>poolAddress = Some ''pool'', address = None, hop_id = None,
     inputMint = Some ''mintIn'', outputMint = Some ''mintOut'',
     amountInAtomic = Some amountIn, minOutAtomic = Some minOut,
     dexType = Some ''METEORA_DLMM'', hop_dex = None,
     binArraysPubkey = None, binArrays = Some [''binArray''], quote_binArrays = None\<rparr>"

definition example_budget :: computeBudget where
  "example_budget = \<lparr>unitLimit = Some 400000, unitPriceMicroLamports = Some 1000\<rparr>"

definition example_opts :: exec_opts where
  "example_opts = \<lparr>skipPreflight = True, maxRetries = Some 0, skipConfirm = True\<rparr>"

section \<open>Decimal arithmetic (the library decimal.js)\<close>

text \<open>
  The adapters compute with the \<^verbatim>\<open>Decimal\<close> type of decimal.js. A finite
  \<^verbatim>\<open>Decimal\<close> is a decimal fraction, here a rational. The library rounds the result of
  every \<^verbatim>\<open>plus\<close>, \<^verbatim>\<open>minus\<close>, \<^verbatim>\<open>times\<close> and \<^verbatim>\<open>div\<close> to \<^verbatim>\<open>precision\<close> significant
  digits in the rounding mode \<^verbatim>\<open>rounding\<close>; both are settings of the library object,
  which a program may change: the library's defaults are 20 digits and half-up, and
  utils/decimals.js of this repository sets 40 digits and round-down. \<^verbatim>\<open>floor\<close>,
  comparisons and the constructor are exact.
\<close>

datatype rounding = ROUND_DOWN | ROUND_HALF_UP

record decimal_config =
  precision :: nat
  rounding :: rounding

definition library_defaults :: decimal_config where
  "library_defaults = \<lparr>precision = 20, rounding = ROUND_HALF_UP\<rparr>"

definition utils_decimals_config :: decimal_config where
  "utils_decimals_config = \<lparr>precision = 40, rounding = ROUND_DOWN\<rparr>"

text \<open>The number of decimal digits of a natural number (one digit for 0).\<close>

function ndigits :: "nat \<Rightarrow> nat" where
  "ndigits n = (if n < 10 then 1 else Suc (ndigits (n div 10)))"
  by pat_completeness auto
termination
  by (relation "measure id") auto

declare ndigits.simps [simp del]

text \<open>Powers of ten with an integer exponent.\<close>

definition p10 :: "int \<Rightarrow> rat" where
  "p10 e = (if 0 \<le> e then 10 ^ nat e else 1 / 10 ^ nat (- e))"

text \<open>
  The decimal exponent of a positive number: the \<open>e\<close> with \<open>10^e \<le> r < 10^(e+1)\<close>.
\<close>

definition expo :: "rat \<Rightarrow> int" where
  "expo r =
    (if 1 \<le> r then int (ndigits (nat \<lfloor>r\<rfloor>)) - 1
     else - int (ndigits (nat (\<lceil>1 / r\<rceil> - 1))))"

text \<open>
  Rounding to \<open>precision\<close> significant digits: the magnitude is scaled by the unit of its
  last kept digit, rounded to an integer (down, or to the nearest with halves away from
  zero), and scaled back.
\<close>

definition round_sig :: "decimal_config \<Rightarrow> rat \<Rightarrow> rat" where
  "round_sig cfg r =
    (if r = 0 then 0
     else
       let u = p10 (expo \<bar>r\<bar> - int (precision cfg) + 1);
           q = \<bar>r\<bar> / u;
           n = (case rounding cfg of ROUND_DOWN \<Rightarrow> \<lfloor>q\<rfloor> | ROUND_HALF_UP \<Rightarrow> \<lfloor>q + 1 / 2\<rfloor>)
       in sgn r * of_int n * u)"

definition dec_plus :: "decimal_config \<Rightarrow> rat \<Rightarrow> rat \<Rightarrow> rat" where
  "dec_plus cfg a b = round_sig cfg (a + b)"

definition dec_minus :: "decimal_config \<Rightarrow> rat \<Rightarrow> rat \<Rightarrow> rat" where
  "dec_minus cfg a b = round_sig cfg (a - b)"

definition dec_times :: "decimal_config \<Rightarrow> rat \<Rightarrow> rat \<Rightarrow> rat" where
  "dec_times cfg a b = round_sig cfg (a * b)"

text \<open>
  Division by zero gives \<^verbatim>\<open>Infinity\<close> or \<^verbatim>\<open>NaN\<close>, and every later \<^verbatim>\<open>times\<close> and
  \<^verbatim>\<open>floor\<close> of a non-finite value is non-finite again: \<open>None\<close> stands for them.
\<close>

definition dec_div :: "decimal_config \<Rightarrow> rat \<Rightarrow> rat \<Rightarrow> rat option" where
  "dec_div cfg a b = (if b = 0 then None else Some (round_sig cfg (a / b)))"

text \<open>\<^verbatim>\<open>toFixed(0)\<close>: the nearest integer in the configured rounding mode.\<close>

definition toFixed0 :: "decimal_config \<Rightarrow> rat \<Rightarrow> int" where
  "toFixed0 cfg r =
    (case rounding cfg of
       ROUND_DOWN \<Rightarrow> sgn \<lfloor>r\<rfloor> * \<lfloor>\<bar>r\<bar>\<rfloor>
     | ROUND_HALF_UP \<Rightarrow> (if 0 \<le> r then \<lfloor>r + 1 / 2\<rfloor> else - \<lfloor>\<bar>r\<bar> + 1 / 2\<rfloor>))"

section \<open>Constant-product adapter (engine/Q_cpmm.fixed.js, CPMMAdapter)\<close>

text \<open>
  The fields the constructor sets from the pool data that \<^verbatim>\<open>quoteExactIn\<close> reads.
\<close>

record cpmm_adapter =
  tokenXDecimals :: num_field
  tokenYDecimals :: num_field
  adapter_feeBps :: num_field
  xReserveRaw :: num_field
  yReserveRaw :: num_field

definition CPMMAdapter :: "pool_data \<Rightarrow> cpmm_adapter" where
  "CPMMAdapter pd =
    \<lparr>tokenXDecimals =
       nullish_or (baseDecimals pd) (nullish_or (decimalsA pd) (nullish_or (raw_baseDecimals pd)
         (nullish_or (raw_decimalsA pd) (nullish_or (decA pd) Nullish)))),
     tokenYDecimals =
       nullish_or (quoteDecimals pd) (nullish_or (decimalsB pd) (nullish_or (raw_quoteDecimals pd)
         (nullish_or (raw_decimalsB pd) (nullish_or (decB pd) Nullish)))),
     adapter_feeBps =
       nullish_or (feeBps pd) (nullish_or (fee_bps pd) (nullish_or (raw_feeBps pd) (Num 25))),
     xReserveRaw =
       nullish_or (xReserve pd) (nullish_or (baseReserve pd) (nullish_or (reserve_x pd)
         (nullish_or (raw_reserve_x pd) (nullish_or (raw_baseReserve pd) Nullish)))),
     yReserveRaw =
       nullish_or (yReserve pd) (nullish_or (quoteReserve pd) (nullish_or (reserve_y pd)
         (nullish_or (raw_reserve_y pd) (nullish_or (raw_quoteReserve pd) Nullish))))\<rparr>"

text \<open>
  \<^verbatim>\<open>toDec\<close> reads a nullish value as 0; \<^verbatim>\<open>new Decimal\<close> rejects it, as it rejects
  text that spells no number.
\<close>

definition toDec :: "num_field \<Rightarrow> js_error + rat" where
  "toDec v = (case v of Nullish \<Rightarrow> Inr 0 | Malformed \<Rightarrow> Inl DecimalError
                      | Num r \<Rightarrow> Inr r | NumText r \<Rightarrow> Inr r)"

definition new_Decimal :: "num_field \<Rightarrow> js_error + rat" where
  "new_Decimal v = (case v of Nullish \<Rightarrow> Inl DecimalError | Malformed \<Rightarrow> Inl DecimalError
                            | Num r \<Rightarrow> Inr r | NumText r \<Rightarrow> Inr r)"

text \<open>\<^verbatim>\<open>Number.isInteger\<close>: a number (not a string) without a fractional part.\<close>

definition isInteger :: "num_field \<Rightarrow> bool" where
  "isInteger v = (case v of Num r \<Rightarrow> of_int \<lfloor>r\<rfloor> = r | _ \<Rightarrow> False)"

text \<open>
  The quote object, without the fields that are JavaScript doubles (the human amounts,
  \<^verbatim>\<open>executionPrice\<close>, \<^verbatim>\<open>priceImpact\<close>, \<^verbatim>\<open>fee\<close>); computing them cannot throw. A raw
  amount is the integer its digit string spells, or \<open>None\<close> for a non-finite one.
\<close>

record quote =
  inAmountRaw :: int
  outAmountRaw :: "int option"
  minOutAmountRaw :: "int option"
  quote_swapForY :: bool
  quote_dexType :: string
  success :: bool

text \<open>
  \<^verbatim>\<open>quoteExactIn(inAmountAtomic, swapForY = true, slippageBps = 50)\<close>. The arguments
  are taken after the defaults have been applied: an omitted \<open>slippageBps\<close> is
  \<open>Num 50\<close>, and \<open>Nullish\<close> stands for an explicit \<^verbatim>\<open>null\<close>. The first argument is
  the configuration of the \<^verbatim>\<open>Decimal\<close> constructor at the time of the call.
\<close>

definition quoteExactIn ::
  "decimal_config \<Rightarrow> cpmm_adapter \<Rightarrow> num_field \<Rightarrow> bool \<Rightarrow> num_field \<Rightarrow> js_error + quote" where
  "quoteExactIn cfg this inAmountAtomic swapForY slippageBps =
    bindE (ensure (inAmountAtomic \<noteq> Nullish) ''inAmountAtomic required'') (\<lambda>_.
    let xR = xReserveRaw this; yR = yReserveRaw this in
    bindE (ensure (xR \<noteq> Nullish \<and> yR \<noteq> Nullish)
             ''CPMM reserves missing (run enrich reserves first)'') (\<lambda>_.
    bindE (toDec xR) (\<lambda>x.
    bindE (toDec yR) (\<lambda>y.
    bindE (ensure (0 < x \<and> 0 < y) ''CPMM reserves are zero (cannot quote)'') (\<lambda>_.
    bindE (toDec inAmountAtomic) (\<lambda>inAmt.
    bindE (ensure (0 < inAmt) ''inAmountAtomic must be > 0'') (\<lambda>_.
    bindE (new_Decimal (adapter_feeBps this)) (\<lambda>feeBpsD.
    let feeRate = round_sig cfg (feeBpsD / 10000);
        oneMinusFee = dec_minus cfg 1 feeRate;
        inAfterFee = dec_times cfg inAmt oneMinusFee;
        out = (if swapForY
               then dec_div cfg (dec_times cfg inAfterFee y) (dec_plus cfg x inAfterFee)
               else dec_div cfg (dec_times cfg inAfterFee x) (dec_plus cfg y inAfterFee))
    in
    bindE (new_Decimal slippageBps) (\<lambda>slippageD.
    let slip = round_sig cfg (slippageD / 10000);
        minOut = map_option (\<lambda>v. \<lfloor>dec_times cfg v (dec_minus cfg 1 slip)\<rfloor>) out
    in
    bindE (ensure (isInteger (tokenXDecimals this) \<and> isInteger (tokenYDecimals this))
             ''CPMMAdapter missing decimals for midPrice'') (\<lambda>_.
    bindE (ensure (isInteger (tokenXDecimals this) \<and> isInteger (tokenYDecimals this))
             ''CPMMAdapter missing token decimals'') (\<lambda>_.
    Inr \<lparr>inAmountRaw = toFixed0 cfg inAmt,
         outAmountRaw = map_option floor out,
         minOutAmountRaw = minOut,
         quote_swapForY = swapForY,
         quote_dexType = ''RAYDIUM_CPMM'',
         success = True\<rparr>)))))))))))"

text \<open>The closed form of the specification, in exact arithmetic on integers.\<close>

definition cpmm_exact_out :: "int \<Rightarrow> int \<Rightarrow> int \<Rightarrow> int \<Rightarrow> int" where
  "cpmm_exact_out x y bps dx = (dx * (10000 - bps) * y) div (10000 * x + dx * (10000 - bps))"

definition example_cpmm_pool :: "rat \<Rightarrow> rat \<Rightarrow> pool_data" where
  "example_cpmm_pool x y =
    empty_pool\<lparr>xReserve := NumText x, yReserve := NumText y,
               baseDecimals := Num 6, quoteDecimals := Num 6\<rparr>"

section \<open>Theorems\<close>

lemma tryStart_closes:
  "tryStart p1 p2 (Some p3) s =
     Inr (case closes p1 p2 p3 s of
            None \<Rightarrow> None
          | Some ms \<Rightarrow> Some \<lparr>startMint = s, inMints = ms\<rparr>)"
  by (simp add: tryStart_def closes_def hop_def Let_def)

text \<open>
  C7. For every triple of pools the solver never throws and returns exactly what the
  specification describes: the walk pool1, pool2, pool3 is tried from pool1's base mint
  and then from its quote mint, each hop requiring the current mint to be one side of the
  pool and advancing to the other side; the first start whose walk ends on the start mint
  after the three hops is returned with the three mints entered, and the result is None
  when neither start closes. Being a function of the three pools only, the result is
  deterministic and has no effect on any state; pools after the third are ignored.
\<close>

theorem solveTriangleOrientation_refines_spec:
  "solveTriangleOrientation (p1 # p2 # p3 # rest) = Inr (solve_spec p1 p2 p3)"
  by (simp add: tryStart_closes orElse_def solve_spec_def split: option.splits)


lemma solveTriangleOrientation_example:
  "solveTriangleOrientation
     [\<lparr>baseMint = ''SOL'', quoteMint = ''USDC''\<rparr>, \<lparr>baseMint = ''USDC'', quoteMint = ''X''\<rparr>,
      \<lparr>baseMint = ''X'', quoteMint = ''SOL''\<rparr>]
     = Inr (Some \<lparr>startMint = ''SOL'', inMints = [''SOL'', ''USDC'', ''X'']\<rparr>)
   \<and> solveTriangleOrientation
     [\<lparr>baseMint = ''SOL'', quoteMint = ''USDC''\<rparr>, \<lparr>baseMint = ''X'', quoteMint = ''USDC''\<rparr>,
      \<lparr>baseMint = ''SOL'', quoteMint = ''X''\<rparr>]
     = Inr (Some \<lparr>startMint = ''SOL'', inMints = [''SOL'', ''USDC'', ''X'']\<rparr>)
   \<and> solveTriangleOrientation
     [\<lparr>baseMint = ''SOL'', quoteMint = ''USDC''\<rparr>, \<lparr>baseMint = ''USDC'', quoteMint = ''X''\<rparr>,
      \<lparr>baseMint = ''Y'', quoteMint = ''SOL''\<rparr>]
     = Inr None"
  by (simp add: orElse_def tryStart_def)

lemma normalizeDex_orca_iff:
  "normalizeDex p = ''orca'' \<longleftrightarrow>
     \<not> str_includes (dex_text p) ''meteora'' \<and> str_includes (dex_text p) ''orca''"
proof -
  have empty: "\<not> str_includes [] ''orca''"
    by (simp add: str_includes_def)
  have self: "str_includes ''orca'' ''orca''"
    by (simp add: str_includes_def)
  show ?thesis
    unfolding normalizeDex_def dex_text_def [symmetric] Let_def truthy_str_def
    using empty self by auto
qed

lemma first_of_3:
  "first_of [a, b, c] =
     (case a of Some v \<Rightarrow> v | None \<Rightarrow>
        (case b of Some v \<Rightarrow> v | None \<Rightarrow> (case c of Some v \<Rightarrow> v | None \<Rightarrow> Cpmm)))"
  by (simp add: first_of_def split: option.splits)

text \<open>
  C8, as stated, fails: with the DEX name orca an explicit type cpmm is overridden (the
  code answers whirlpool, the stated order cpmm), and the DEX name meteora alone does not
  give dlmm (the code answers cpmm).
\<close>

theorem normalizeType_explicit_first_counterexample:
  "normalizeType (empty_pool\<lparr>dex := Some ''Orca'', type := Some ''cpmm''\<rparr>) = ''whirlpool''
   \<and> variant_name (classify_spec (empty_pool\<lparr>dex := Some ''Orca'', type := Some ''cpmm''\<rparr>)) = ''cpmm''
   \<and> normalizeType (empty_pool\<lparr>dex := Some ''meteora''\<rparr>) = ''cpmm''
   \<and> variant_name (classify_spec (empty_pool\<lparr>dex := Some ''meteora''\<rparr>)) = ''dlmm''"
  by code_simp

text \<open>
  C8, amended. The classifier is a total function into the four variant names, and for
  every record it resolves in this order: a DEX name that normalises to orca gives
  whirlpool; otherwise the explicit type text (dlmm, then whirlpool or orca, then clmm,
  then cpmm, amm or constant); otherwise the structure (a truthy bin step gives dlmm, a
  truthy tick spacing gives whirlpool); otherwise cpmm. There is no rule for the DEX name
  meteora.
\<close>

theorem normalizeType_resolution_order:
  "normalizeType p = variant_name (classify_code_order p)"
proof (cases "normalizeDex p = ''orca''")
  case True
  then have "orca_stage p = Some Whirlpool"
    by (simp add: normalizeDex_orca_iff orca_stage_def)
  with True show ?thesis
    by (simp add: normalizeType_def classify_code_order_def first_of_3 variant_name_def)
next
  case False
  then have "orca_stage p = None"
    by (auto simp add: normalizeDex_orca_iff orca_stage_def)
  with False show ?thesis
    unfolding normalizeType_def classify_code_order_def first_of_3 Let_def
      type_text_def [symmetric]
    by (simp add: explicit_stage_def structural_stage_def variant_name_def)
qed

lemma markPool_isMathReady: "isMathReady (markPool p) = hasReserves (markPool p)"
  by (simp add: markPool_def Let_def truthy_str_def)

lemma markPool_reserveSource:
  "reserveSource p = None \<Longrightarrow> reserveSource (markPool p) \<in> {Some ''partial'', Some ''none''}"
  by (simp add: markPool_def Let_def truthy_str_def)

text \<open>
  C9, at the failing input: a clmm pool and a whirlpool pool without reserves come out
  of the final pass with \<open>isMathReady\<close> false, although both variants are math-ready by
  policy.
\<close>

theorem markPool_clmm_without_reserves_not_ready:
  "isMathReady (markPool (empty_pool\<lparr>type := Some ''clmm''\<rparr>)) = False
   \<and> isMathReady (markPool (empty_pool\<lparr>type := Some ''whirlpool''\<rparr>)) = False"
  by (simp add: markPool_def Let_def truthy_str_def empty_pool_def truthy_def
      parseFloat_or_0_def positive_finite_def)

lemma simulateTriangularRoute_cases:
  "(\<exists>e. simulateTriangularRoute a = Inl e)
     \<or> simulateTriangularRoute a = Inr (RouteFailure ''need-3-pools'' [])"
proof -
  have len: "max (length ps) 4 \<noteq> 3" for ps :: "string pool list"
    by simp
  show ?thesis
    by (simp add: simulateTriangularRoute_def Let_def len split: option.splits sum.splits)
qed

text \<open>
  C1, at the failing input: for the triangle SOL/USDC, USDC/X, X/SOL with all arguments
  valid, the function returns the failure need-3-pools and has simulated no leg, so no
  amount is chained.
\<close>

theorem simulateTriangularRoute_simulates_no_leg:
  "simulateTriangularRoute
     \<lparr>pools = Some [\<lparr>baseMint = ''SOL'', quoteMint = ''USDC''\<rparr>,
                    \<lparr>baseMint = ''USDC'', quoteMint = ''X''\<rparr>,
                    \<lparr>baseMint = ''X'', quoteMint = ''SOL''\<rparr>],
      tokenA = Some ''SOL'', tokenB = Some ''USDC'', tokenC = Some ''X'',
      dxAtomic = NumText 1000000000, maxImpactPct = Num 5, execute = False\<rparr>
   = Inr (RouteFailure ''need-3-pools'' [])"
  by (simp add: simulateTriangularRoute_def D_def validateTriangle_def orElse_def tryStart_def)

text \<open>
  C2, on the code: whatever the arguments, the function never returns a success result,
  so no call returns the profit of a route.
\<close>

theorem simulateTriangularRoute_never_succeeds:
  "simulateTriangularRoute a \<noteq> (Inr (RouteSuccess legs profitAtomic profitPct) :: js_error + 'leg route_result)"
proof -
  have "(\<exists>e. simulateTriangularRoute a = (Inl e :: js_error + 'leg route_result))
      \<or> simulateTriangularRoute a = (Inr (RouteFailure ''need-3-pools'' []) :: js_error + 'leg route_result)"
    by (rule simulateTriangularRoute_cases)
  then show ?thesis by auto
qed

text \<open>
  C3, on the code: whatever the arguments, the function never returns the failure
  unrealistic-profit, with or without legs.
\<close>

theorem simulateTriangularRoute_never_unrealistic_profit:
  "simulateTriangularRoute a \<noteq> (Inr (RouteFailure ''unrealistic-profit'' legs) :: js_error + 'leg route_result)"
proof -
  have "(\<exists>e. simulateTriangularRoute a = (Inl e :: js_error + 'leg route_result))
      \<or> simulateTriangularRoute a = (Inr (RouteFailure ''need-3-pools'' []) :: js_error + 'leg route_result)"
    by (rule simulateTriangularRoute_cases)
  then show ?thesis by auto
qed

lemma bindE_Inr_iff:
  "bindE m f = Inr r \<longleftrightarrow> (\<exists>v. m = Inr v \<and> f v = Inr r)"
  by (cases m) (simp_all add: bindE_def)

lemma bindE_Inl: "bindE (Inl e) f = Inl e"
  by (simp add: bindE_def)

lemma bindE_Inr: "bindE (Inr v) f = f v"
  by (simp add: bindE_def)

lemma ensure_Inr_iff: "ensure c msg = Inr u \<longleftrightarrow> c"
  by (simp add: ensure_def)

lemma ensure_True: "ensure True msg = Inr ()"
  by (simp add: ensure_def)

lemma ensure_False: "ensure False msg = Inl (Thrown msg)"
  by (simp add: ensure_def)

lemma perHopIxs_Inr_D:
  "perHopIxs env payer conn i legs = Inr ixs \<Longrightarrow>
     \<exists>ixss. list_all2 (hop_built env payer conn) legs ixss \<and> ixs = concat ixss"
proof (induction legs arbitrary: i ixs)
  case Nil
  then show ?case by simp
next
  case (Cons h rest)
  from Cons.prems obtain hixs more where
    amounts: "amountInAtomic h \<noteq> None" "minOutAtomic h \<noteq> None" and
    built: "buildSwapIxForPool env h payer conn = Inr hixs" and
    rest: "perHopIxs env payer conn (Suc i) rest = Inr more" and
    ixs: "ixs = hixs @ more"
    by (auto simp add: bindE_Inr_iff ensure_Inr_iff)
  from Cons.IH [OF rest] obtain ixss where
    "list_all2 (hop_built env payer conn) rest ixss" "more = concat ixss"
    by blast
  with amounts built ixs
  have "list_all2 (hop_built env payer conn) (h # rest) (hixs # ixss) \<and> ixs = concat (hixs # ixss)"
    by (simp add: hop_built_def)
  then show ?case by blast
qed

lemma perHopIxs_Inr_I:
  "list_all2 (hop_built env payer conn) legs ixss \<Longrightarrow>
     perHopIxs env payer conn i legs = Inr (concat ixss)"
proof (induction legs ixss arbitrary: i rule: list_all2_induct)
  case Nil
  then show ?case by simp
next
  case (Cons h hixs rest ixss)
  then show ?case
    by (simp add: hop_built_def bindE_Inr ensure_True)
qed

lemma bindE_InrE:
  assumes "bindE m f = Inr r"
  obtains v where "m = Inr v" "f v = Inr r"
  using assms by (auto simp add: bindE_Inr_iff)

lemma swap_output_Inr_iff:
  "(case out of IsTransaction l \<Rightarrow> Inr l | HasInstructions l \<Rightarrow> Inr l | HasIxs l \<Rightarrow> Inr l
      | OtherShape \<Rightarrow> Inl e) = Inr ixs
   \<longleftrightarrow> out \<in> {IsTransaction ixs, HasInstructions ixs, HasIxs ixs}"
  by (cases out) auto

lemma buildMeteoraDlmmSwapIxs_Inr_swap:
  assumes "buildMeteoraDlmmSwapIxs env h payer conn = Inr ixs"
  shows "\<exists>create poolKey swap ps out.
           MeteoraDlmm env = Some create \<and> create poolKey = Inr (Some swap)
           \<and> swap ps = Inr out
           \<and> amountInAtomic h = Some (inAmount ps) \<and> minOutAtomic h = Some (minOutAmount ps)
           \<and> out \<in> {IsTransaction ixs, HasInstructions ixs, HasIxs ixs}"
  using assms unfolding buildMeteoraDlmmSwapIxs_def Let_def
  apply (clarsimp simp add: bindE_Inr_iff ensure_Inr_iff swap_output_Inr_iff
      split: option.splits)
  apply (rule exI, rule exI, rule conjI, assumption, rule exI, rule exI, rule conjI,
      assumption, simp)
  done

lemma buildSwapIxForPool_Inr_swap:
  assumes "buildSwapIxForPool env h payer conn = Inr ixs"
  shows "\<exists>create poolKey swap ps out.
           MeteoraDlmm env = Some create \<and> create poolKey = Inr (Some swap)
           \<and> swap ps = Inr out
           \<and> amountInAtomic h = Some (inAmount ps) \<and> minOutAtomic h = Some (minOutAmount ps)
           \<and> out \<in> {IsTransaction ixs, HasInstructions ixs, HasIxs ixs}"
proof -
  from assms have "buildMeteoraDlmmSwapIxs env h payer conn = Inr ixs"
    by (auto simp add: buildSwapIxForPool_def bindE_Inr_iff Let_def split: if_splits)
  then show ?thesis
    by (rule buildMeteoraDlmmSwapIxs_Inr_swap)
qed


lemma routeHopIxs_eq: "routeHopIxs env payer conn i legs = Inr ixs \<longleftrightarrow>
    (\<exists>ixss. list_all2 (hop_built env payer conn) legs ixss \<and> ixs = concat ixss)"
proof (induction legs arbitrary: i ixs)
  case Nil
  then show ?case by auto
next
  case (Cons h rest)
  show ?case
  proof
    assume "routeHopIxs env payer conn i (h # rest) = Inr ixs"
    then obtain hixs more where
      amounts: "amountInAtomic h \<noteq> None" "minOutAtomic h \<noteq> None" and
      built: "buildSwapIxForPool env h payer conn = Inr hixs" and
      rest: "routeHopIxs env payer conn (Suc i) rest = Inr more" and
      ixs: "ixs = hixs @ more"
      by (auto simp add: bindE_Inr_iff ensure_Inr_iff)
    from rest Cons.IH obtain ixss where
      "list_all2 (hop_built env payer conn) rest ixss" "more = concat ixss"
      by blast
    with amounts built ixs
    have "list_all2 (hop_built env payer conn) (h # rest) (hixs # ixss) \<and> ixs = concat (hixs # ixss)"
      by (simp add: hop_built_def)
    then show "\<exists>ixss. list_all2 (hop_built env payer conn) (h # rest) ixss \<and> ixs = concat ixss"
      by blast
  next
    assume "\<exists>ixss. list_all2 (hop_built env payer conn) (h # rest) ixss \<and> ixs = concat ixss"
    then obtain hixs ixss where
      h: "hop_built env payer conn h hixs" and
      rest: "list_all2 (hop_built env payer conn) rest ixss" and
      ixs: "ixs = hixs @ concat ixss"
      by (auto simp add: list_all2_Cons1)
    from rest Cons.IH have "routeHopIxs env payer conn (Suc i) rest = Inr (concat ixss)"
      by blast
    with h ixs show "routeHopIxs env payer conn i (h # rest) = Inr ixs"
      by (simp add: hop_built_def bindE_Inr ensure_True)
  qed
qed

lemma buildFlashloanTx_Inr_D:
  assumes "buildFlashloanTx env conn kp lm la rl fb bp cb = Inr r"
  shows "\<exists>k legs build ixss mintKey borrowerKey flashIx budgetIxs.
           kp = Some k \<and> rl = Some legs \<and> legs \<noteq> [] \<and> fb = Some build
         \<and> list_all2 (hop_built env (publicKey k) conn) legs ixss
         \<and> build \<lparr>flash_payer = publicKey k, flash_loanMint = mintKey,
                   flash_loanAmountAtomic = la, flash_borrowerProgramId = borrowerKey,
                   callbackIxs = concat ixss\<rparr> = Inr flashIx
         \<and> addComputeBudgetIxs cb = Inr budgetIxs
         \<and> r = \<lparr>tx = budgetIxs @ [Ix flashIx], signers = [k]\<rparr>"
proof -
  from assms obtain k legs build perHop mintKey borrowerKey flashIx budgetIxs where
    args: "kp = Some k" "rl = Some legs" "legs \<noteq> []" "fb = Some build" and
    loop: "perHopIxs env (publicKey k) conn 0 legs = Inr perHop" and
    flash: "build \<lparr>flash_payer = publicKey k, flash_loanMint = mintKey,
                    flash_loanAmountAtomic = la, flash_borrowerProgramId = borrowerKey,
                    callbackIxs = perHop\<rparr> = Inr flashIx" and
    budget: "addComputeBudgetIxs cb = Inr budgetIxs" and
    r: "r = \<lparr>tx = budgetIxs @ [Ix flashIx], signers = [k]\<rparr>"
    unfolding buildFlashloanTx_def Let_def
    by (auto simp add: bindE_Inr_iff ensure_Inr_iff split: option.splits)
  from perHopIxs_Inr_D [OF loop] obtain ixss where
    "list_all2 (hop_built env (publicKey k) conn) legs ixss" "perHop = concat ixss"
    by blast
  with args flash budget r show ?thesis
    by blast
qed

lemma hop_built_swap:
  assumes "hop_built env payer conn h hixs"
  shows "\<exists>create poolKey swap ps out.
           MeteoraDlmm env = Some create \<and> create poolKey = Inr (Some swap)
           \<and> swap ps = Inr out
           \<and> amountInAtomic h = Some (inAmount ps) \<and> minOutAtomic h = Some (minOutAmount ps)
           \<and> out \<in> {IsTransaction hixs, HasInstructions hixs, HasIxs hixs}"
proof -
  from assms have "buildSwapIxForPool env h payer conn = Inr hixs"
    by (simp add: hop_built_def)
  then show ?thesis
    by (rule buildSwapIxForPool_Inr_swap)
qed

text \<open>
  C6. For every call of \<^verbatim>\<open>buildFlashloanTx\<close>: if a leg lacks its \<open>amountInAtomic\<close> or
  its \<open>minOutAtomic\<close>, or the instruction builder of a leg fails, or the flashloan
  instruction builder is no function, the call ends in an error (and an error carries no
  transaction). When the call succeeds, every leg's instructions are what the SDK's swap
  returned for a request whose \<open>inAmount\<close> and \<open>minOutAmount\<close> are that leg's own
  \<open>amountInAtomic\<close> and \<open>minOutAtomic\<close>; the loan amount goes to the flashloan builder
  only, together with the legs' instructions in order as the callback. The transaction
  is the instructions of the compute budget followed by the flashloan instruction.
\<close>

theorem buildFlashloanTx_fails_fast:
  "((\<exists>h \<in> set legs. amountInAtomic h = None \<or> minOutAtomic h = None) \<longrightarrow>
      isl (buildFlashloanTx env conn kp lm la (Some legs) fb bp cb))
   \<and> ((\<exists>h \<in> set legs. isl (buildSwapIxForPool env h (publicKey k) conn)) \<longrightarrow>
      isl (buildFlashloanTx env conn (Some k) lm la (Some legs) fb bp cb))
   \<and> isl (buildFlashloanTx env conn kp lm la rl None bp cb)
   \<and> (\<forall>r. buildFlashloanTx env conn kp lm la rl fb bp cb = Inr r \<longrightarrow>
        (\<exists>k legs build ixss mintKey borrowerKey flashIx budgetIxs.
            kp = Some k \<and> rl = Some legs \<and> fb = Some build
          \<and> list_all2 (\<lambda>h hixs. \<exists>create poolKey swap ps out.
                MeteoraDlmm env = Some create \<and> create poolKey = Inr (Some swap)
                \<and> swap ps = Inr out
                \<and> amountInAtomic h = Some (inAmount ps)
                \<and> minOutAtomic h = Some (minOutAmount ps)
                \<and> out \<in> {IsTransaction hixs, HasInstructions hixs, HasIxs hixs}) legs ixss
          \<and> build \<lparr>flash_payer = publicKey k, flash_loanMint = mintKey,
                    flash_loanAmountAtomic = la, flash_borrowerProgramId = borrowerKey,
                    callbackIxs = concat ixss\<rparr> = Inr flashIx
          \<and> addComputeBudgetIxs cb = Inr budgetIxs
          \<and> r = \<lparr>tx = budgetIxs @ [Ix flashIx], signers = [k]\<rparr>))"
proof (intro conjI impI allI)
  assume missing: "\<exists>h \<in> set legs. amountInAtomic h = None \<or> minOutAtomic h = None"
  show "isl (buildFlashloanTx env conn kp lm la (Some legs) fb bp cb)"
  proof (rule ccontr)
    assume "\<not> isl (buildFlashloanTx env conn kp lm la (Some legs) fb bp cb)"
    then obtain r where "buildFlashloanTx env conn kp lm la (Some legs) fb bp cb = Inr r"
      by (cases "buildFlashloanTx env conn kp lm la (Some legs) fb bp cb") auto
    from buildFlashloanTx_Inr_D [OF this] obtain k' :: keypair and ixss where
      "list_all2 (hop_built env (publicKey k') conn) legs ixss"
      by auto
    then have "\<forall>h \<in> set legs. amountInAtomic h \<noteq> None \<and> minOutAtomic h \<noteq> None"
      by (auto simp add: list_all2_conv_all_nth in_set_conv_nth hop_built_def)
    with missing show False by blast
  qed
next
  assume failing: "\<exists>h \<in> set legs. isl (buildSwapIxForPool env h (publicKey k) conn)"
  show "isl (buildFlashloanTx env conn (Some k) lm la (Some legs) fb bp cb)"
  proof (rule ccontr)
    assume "\<not> isl (buildFlashloanTx env conn (Some k) lm la (Some legs) fb bp cb)"
    then obtain r where "buildFlashloanTx env conn (Some k) lm la (Some legs) fb bp cb = Inr r"
      by (cases "buildFlashloanTx env conn (Some k) lm la (Some legs) fb bp cb") auto
    from buildFlashloanTx_Inr_D [OF this] obtain ixss where
      "list_all2 (hop_built env (publicKey k) conn) legs ixss"
      by auto
    then have "\<forall>h \<in> set legs. \<exists>hixs. buildSwapIxForPool env h (publicKey k) conn = Inr hixs"
      by (auto simp add: list_all2_conv_all_nth in_set_conv_nth hop_built_def)
    with failing show False by auto
  qed
next
  show "isl (buildFlashloanTx env conn kp lm la rl None bp cb)"
    by (simp add: buildFlashloanTx_def bindE_def ensure_def split: sum.splits)
next
  fix r
  assume "buildFlashloanTx env conn kp lm la rl fb bp cb = Inr r"
  from buildFlashloanTx_Inr_D [OF this]
  obtain k legs build ixss mintKey borrowerKey flashIx budgetIxs
    where args: "kp = Some k" "rl = Some legs" "fb = Some build" and
      built: "list_all2 (hop_built env (publicKey k) conn) legs ixss" and
      flash: "build \<lparr>flash_payer = publicKey k, flash_loanMint = mintKey,
                    flash_loanAmountAtomic = la, flash_borrowerProgramId = borrowerKey,
                    callbackIxs = concat ixss\<rparr> = Inr flashIx" and
      budget: "addComputeBudgetIxs cb = Inr budgetIxs" and
      r: "r = \<lparr>tx = budgetIxs @ [Ix flashIx], signers = [k]\<rparr>"
    by blast
  from built have
    "list_all2 (\<lambda>h hixs. \<exists>create poolKey swap ps out.
        MeteoraDlmm env = Some create \<and> create poolKey = Inr (Some swap)
        \<and> swap ps = Inr out
        \<and> amountInAtomic h = Some (inAmount ps)
        \<and> minOutAtomic h = Some (minOutAmount ps)
        \<and> out \<in> {IsTransaction hixs, HasInstructions hixs, HasIxs hixs}) legs ixss"
    by (rule list_all2_mono) (rule hop_built_swap)
  with args flash budget r
  show "\<exists>k legs build ixss mintKey borrowerKey flashIx budgetIxs.
            kp = Some k \<and> rl = Some legs \<and> fb = Some build
          \<and> list_all2 (\<lambda>h hixs. \<exists>create poolKey swap ps out.
                MeteoraDlmm env = Some create \<and> create poolKey = Inr (Some swap)
                \<and> swap ps = Inr out
                \<and> amountInAtomic h = Some (inAmount ps)
                \<and> minOutAtomic h = Some (minOutAmount ps)
                \<and> out \<in> {IsTransaction hixs, HasInstructions hixs, HasIxs hixs}) legs ixss
          \<and> build \<lparr>flash_payer = publicKey k, flash_loanMint = mintKey,
                    flash_loanAmountAtomic = la, flash_borrowerProgramId = borrowerKey,
                    callbackIxs = concat ixss\<rparr> = Inr flashIx
          \<and> addComputeBudgetIxs cb = Inr budgetIxs
          \<and> r = \<lparr>tx = budgetIxs @ [Ix flashIx], signers = [k]\<rparr>"
    by blast
qed

lemma addComputeBudgetIxs_Inr_iff:
  "addComputeBudgetIxs cb = (Inr ixs :: js_error + 'ix instruction list) \<longleftrightarrow>
     (case cb of
        None \<Rightarrow> ixs = []
      | Some b \<Rightarrow>
          (\<forall>u. unitLimit b = Some u \<longrightarrow> 0 \<le> u \<and> u < 2 ^ 32)
        \<and> (\<forall>u. unitPriceMicroLamports b = Some u \<longrightarrow> 0 \<le> u \<and> u < 2 ^ 64)
        \<and> ixs = (case unitLimit b of None \<Rightarrow> [] | Some u \<Rightarrow> [SetComputeUnitLimit u])
              @ (case unitPriceMicroLamports b of None \<Rightarrow> [] | Some u \<Rightarrow> [SetComputeUnitPrice u]))"
  by (auto simp add: addComputeBudgetIxs_def setComputeUnitLimit_def setComputeUnitPrice_def
      bindE_def split: option.splits)

text \<open>
  C10. Neither \<^verbatim>\<open>buildFlashloanTx\<close> nor \<^verbatim>\<open>executeRoute\<close> looks at the number of legs
  beyond its being positive: for a non-empty list of well-formed legs of any length and a
  compute budget that the chain library encodes, the first returns the transaction that
  wraps the legs' instructions (given a flashloan builder that accepts them and valid
  optional keys), and the second returns the signature (given that the RPC calls
  succeed).
\<close>

theorem route_length_not_validated:
  "(legs \<noteq> [] \<and> list_all2 (hop_built env (publicKey k) (Some c)) legs ixss
      \<and> optKey env lm = Inr mintKey \<and> optKey env bp = Inr borrowerKey
      \<and> build \<lparr>flash_payer = publicKey k, flash_loanMint = mintKey,
                flash_loanAmountAtomic = la, flash_borrowerProgramId = borrowerKey,
                callbackIxs = concat ixss\<rparr> = Inr flashIx
      \<and> addComputeBudgetIxs cb = Inr budgetIxs
    \<longrightarrow> buildFlashloanTx env (Some c) (Some k) lm la (Some legs) (Some build) bp cb
          = Inr \<lparr>tx = budgetIxs @ [Ix flashIx], signers = [k]\<rparr>)
   \<and> (legs \<noteq> [] \<and> list_all2 (hop_built env (publicKey k) (Some rpc)) legs ixss
      \<and> addComputeBudgetIxs cb = Inr budgetIxs
      \<and> getLatestBlockhash rpc = Inr blockhash
      \<and> sendTransaction rpc (budgetIxs @ map Ix (concat ixss))
           \<lparr>skipPreflight_opt = skipPreflight opts,
            maxRetries_opt = (case maxRetries opts of None \<Rightarrow> 2 | Some n \<Rightarrow> n)\<rparr> = Inr sig
      \<and> (skipConfirm opts \<or> confirmTransaction rpc sig = Inr ())
    \<longrightarrow> executeRoute env (Some rpc) (Some k) (Some legs) cb opts = Inr sig)"
proof (intro conjI impI)
  assume a: "legs \<noteq> [] \<and> list_all2 (hop_built env (publicKey k) (Some c)) legs ixss
      \<and> optKey env lm = Inr mintKey \<and> optKey env bp = Inr borrowerKey
      \<and> build \<lparr>flash_payer = publicKey k, flash_loanMint = mintKey,
                flash_loanAmountAtomic = la, flash_borrowerProgramId = borrowerKey,
                callbackIxs = concat ixss\<rparr> = Inr flashIx
      \<and> addComputeBudgetIxs cb = Inr budgetIxs"
  then have "perHopIxs env (publicKey k) (Some c) 0 legs = Inr (concat ixss)"
    by (simp add: perHopIxs_Inr_I)
  with a show "buildFlashloanTx env (Some c) (Some k) lm la (Some legs) (Some build) bp cb
          = Inr \<lparr>tx = budgetIxs @ [Ix flashIx], signers = [k]\<rparr>"
    by (simp add: buildFlashloanTx_def bindE_Inr ensure_True)
next
  assume a: "legs \<noteq> [] \<and> list_all2 (hop_built env (publicKey k) (Some rpc)) legs ixss
      \<and> addComputeBudgetIxs cb = Inr budgetIxs
      \<and> getLatestBlockhash rpc = Inr blockhash
      \<and> sendTransaction rpc (budgetIxs @ map Ix (concat ixss))
           \<lparr>skipPreflight_opt = skipPreflight opts,
            maxRetries_opt = (case maxRetries opts of None \<Rightarrow> 2 | Some n \<Rightarrow> n)\<rparr> = Inr sig
      \<and> (skipConfirm opts \<or> confirmTransaction rpc sig = Inr ())"
  then have "routeHopIxs env (publicKey k) (Some rpc) 0 legs = Inr (concat ixss)"
    by (auto simp add: routeHopIxs_eq)
  with a show "executeRoute env (Some rpc) (Some k) (Some legs) cb opts = Inr sig"
    by (auto simp add: executeRoute_def bindE_Inr ensure_True Let_def)
qed

lemma example_dex: "str_includes (toUpperCase ''METEORA_DLMM'') ''METEORA''"
  by code_simp

lemma example_other_dex:
  "\<not> str_includes (toUpperCase ''RAYDIUM_CPMM'') ''METEORA''"
  "\<not> str_includes (toUpperCase ''RAYDIUM_CPMM'') ''DLMM''"
  by code_simp+

lemma example_leg_built:
  "hop_built example_env ''payer'' (Some c) (example_leg a b) [[a, b]]"
  by (simp add: hop_built_def example_leg_def example_env_def buildSwapIxForPool_def
      buildMeteoraDlmmSwapIxs_def bindE_def ensure_def or_str_def or_list_def truthy_opt_def
      truthy_str_def pubkeyOf_def example_dex Let_def)

lemma example_raydium_fails:
  "isl (buildSwapIxForPool example_env ((example_leg a b)\<lparr>dexType := Some ''RAYDIUM_CPMM''\<rparr>)
      ''payer'' (Some c))"
  by (simp add: example_leg_def buildSwapIxForPool_def bindE_def ensure_def or_str_def
      truthy_opt_def truthy_str_def example_other_dex Let_def)

text \<open>
  Witness for C6: a leg without \<open>minOutAtomic\<close>, a leg of an unsupported DEX, a missing
  flashloan builder, and a three-leg route that is built from each leg's own amounts.
\<close>

theorem buildFlashloanTx_fails_fast_witness:
  "isl (buildFlashloanTx example_env (Some example_rpc) (Some example_payer) (Some ''mintIn'')
          (Some 1000)
          (Some [example_leg 1000 990, (example_leg 990 980)\<lparr>minOutAtomic := None\<rparr>])
          (Some example_flash) None None)
   \<and> isl (buildFlashloanTx example_env (Some example_rpc) (Some example_payer) (Some ''mintIn'')
          (Some 1000)
          (Some [example_leg 1000 990, (example_leg 990 980)\<lparr>dexType := Some ''RAYDIUM_CPMM''\<rparr>])
          (Some example_flash) None None)
   \<and> isl (buildFlashloanTx example_env (Some example_rpc) (Some example_payer) (Some ''mintIn'')
          (Some 1000) (Some [example_leg 1000 990]) None None None)
   \<and> (\<exists>ixss. list_all2 (\<lambda>h hixs. \<exists>ps :: swap_params. amountInAtomic h = Some (inAmount ps)
                  \<and> minOutAtomic h = Some (minOutAmount ps))
          [example_leg 1000 990, example_leg 990 980, example_leg 980 1001] ixss
        \<and> buildFlashloanTx example_env (Some example_rpc) (Some example_payer) (Some ''mintIn'')
            (Some 1000) (Some [example_leg 1000 990, example_leg 990 980, example_leg 980 1001])
            (Some example_flash) None None
          = Inr \<lparr>tx = [Ix (concat (concat ixss))], signers = [example_payer]\<rparr>)"
proof (intro conjI)
  let ?build = "\<lambda>legs fb. buildFlashloanTx example_env (Some example_rpc) (Some example_payer)
     (Some ''mintIn'') (Some 1000) (Some legs) fb None None"
  note inst = buildFlashloanTx_fails_fast [where env = example_env and conn = "Some example_rpc"
      and kp = "Some example_payer" and k = example_payer and lm = "Some ''mintIn''"
      and la = "Some 1000" and bp = None and cb = None]
  show "isl (?build [example_leg 1000 990, (example_leg 990 980)\<lparr>minOutAtomic := None\<rparr>]
          (Some example_flash))"
    using inst [where legs = "[example_leg 1000 990, (example_leg 990 980)\<lparr>minOutAtomic := None\<rparr>]"
        and fb = "Some example_flash"]
    by (simp add: example_leg_def)
  show "isl (?build [example_leg 1000 990, (example_leg 990 980)\<lparr>dexType := Some ''RAYDIUM_CPMM''\<rparr>]
          (Some example_flash))"
    using inst [where legs = "[example_leg 1000 990,
          (example_leg 990 980)\<lparr>dexType := Some ''RAYDIUM_CPMM''\<rparr>]"
        and fb = "Some example_flash"] example_raydium_fails [of 990 980 example_rpc]
    by (simp add: example_payer_def)
  show "isl (?build [example_leg 1000 990] None)"
    using inst [where rl = "Some [example_leg 1000 990]"] by simp
  let ?legs = "[example_leg 1000 990, example_leg 990 980, example_leg 980 1001]"
  have run: "?build ?legs (Some example_flash)
      = Inr \<lparr>tx = [Ix [1000, 990, 990, 980, 980, 1001]], signers = [example_payer]\<rparr>"
    using example_leg_built [of example_rpc]
    by (simp add: buildFlashloanTx_def bindE_def ensure_def hop_built_def optKey_def
        truthy_opt_def truthy_str_def pubkeyOf_def example_env_def example_flash_def
        example_payer_def addComputeBudgetIxs_def)
  note success = inst [where rl = "Some ?legs" and fb = "Some example_flash",
      THEN conjunct2, THEN conjunct2, THEN conjunct2, rule_format, OF run]
  then obtain k legs build ixss mintKey borrowerKey flashIx
      and budgetIxs :: "int list instruction list" where
    args: "Some example_payer = Some k" "Some ?legs = Some legs"
      "Some example_flash = Some build" and
    own: "list_all2 (\<lambda>h hixs. \<exists>create poolKey swap ps out.
            MeteoraDlmm example_env = Some create \<and> create poolKey = Inr (Some swap)
            \<and> swap ps = Inr out
            \<and> amountInAtomic h = Some (inAmount ps)
            \<and> minOutAtomic h = Some (minOutAmount ps)
            \<and> out \<in> {IsTransaction hixs, HasInstructions hixs, HasIxs hixs}) legs ixss" and
    flash: "build \<lparr>flash_payer = publicKey k, flash_loanMint = mintKey,
              flash_loanAmountAtomic = Some 1000, flash_borrowerProgramId = borrowerKey,
              callbackIxs = concat ixss\<rparr> = Inr flashIx" and
    budget: "addComputeBudgetIxs None = Inr budgetIxs" and
    r: "\<lparr>tx = [Ix [1000, 990, 990, 980, 980, 1001]], signers = [example_payer]\<rparr>
        = \<lparr>tx = budgetIxs @ [Ix flashIx], signers = [k]\<rparr>"
    by blast
  from args have eqs: "k = example_payer" "legs = ?legs" "build = example_flash"
    by simp_all
  from own have "list_all2 (\<lambda>h hixs. \<exists>ps :: swap_params. amountInAtomic h = Some (inAmount ps)
                  \<and> minOutAtomic h = Some (minOutAmount ps)) legs ixss"
    by (rule list_all2_mono) blast
  with eqs have "list_all2 (\<lambda>h hixs. \<exists>ps :: swap_params. amountInAtomic h = Some (inAmount ps)
                  \<and> minOutAtomic h = Some (minOutAmount ps)) ?legs ixss"
    by simp
  moreover from flash budget r run eqs have "?build ?legs (Some example_flash)
          = Inr \<lparr>tx = [Ix (concat (concat ixss))], signers = [example_payer]\<rparr>"
    by (auto simp add: example_flash_def addComputeBudgetIxs_def)
  ultimately
  show "\<exists>ixss. list_all2 (\<lambda>h hixs. \<exists>ps :: swap_params. amountInAtomic h = Some (inAmount ps)
                  \<and> minOutAtomic h = Some (minOutAmount ps)) ?legs ixss
        \<and> ?build ?legs (Some example_flash)
          = Inr \<lparr>tx = [Ix (concat (concat ixss))], signers = [example_payer]\<rparr>"
    by blast
qed

text \<open>
  Witness for C10: routes of two and of four legs are built and executed, without a
  compute budget and with one.
\<close>

theorem route_length_not_validated_witness:
  "buildFlashloanTx example_env (Some example_rpc) (Some example_payer) (Some ''mintIn'')
      (Some 1000) (Some [example_leg 1000 990, example_leg 990 1001]) (Some example_flash)
      None None
     = Inr \<lparr>tx = [Ix [1000, 990, 990, 1001]], signers = [example_payer]\<rparr>
   \<and> buildFlashloanTx example_env (Some example_rpc) (Some example_payer) (Some ''mintIn'')
      (Some 1000)
      (Some [example_leg 1000 990, example_leg 990 980, example_leg 980 970, example_leg 970 1001])
      (Some example_flash) None (Some example_budget)
     = Inr \<lparr>tx = [SetComputeUnitLimit 400000, SetComputeUnitPrice 1000,
                  Ix [1000, 990, 990, 980, 980, 970, 970, 1001]],
             signers = [example_payer]\<rparr>
   \<and> executeRoute example_env (Some example_rpc) (Some example_payer)
      (Some [example_leg 1000 990, example_leg 990 1001]) (Some example_budget) example_opts
     = Inr ''signature''
   \<and> executeRoute example_env (Some example_rpc) (Some example_payer)
      (Some [example_leg 1000 990, example_leg 990 980, example_leg 980 970, example_leg 970 1001])
      None example_opts = Inr ''signature''"
proof -
  let ?two = "[example_leg 1000 990, example_leg 990 1001]"
  let ?four = "[example_leg 1000 990, example_leg 990 980, example_leg 980 970,
                example_leg 970 1001]"
  have two: "list_all2 (hop_built example_env (publicKey example_payer) (Some example_rpc))
               ?two [[[1000, 990]], [[990, 1001]]]"
    by (simp add: example_leg_built example_payer_def)
  have four: "list_all2 (hop_built example_env (publicKey example_payer) (Some example_rpc))
               ?four [[[1000, 990]], [[990, 980]], [[980, 970]], [[970, 1001]]]"
    by (simp add: example_leg_built example_payer_def)
  have keys: "optKey example_env (Some ''mintIn'') = Inr (Some ''mintIn'')"
    "optKey example_env None = Inr None"
    by (simp_all add: optKey_def truthy_opt_def truthy_str_def pubkeyOf_def example_env_def
        bindE_def)
  have none: "addComputeBudgetIxs None = (Inr [] :: js_error + int list instruction list)"
    by (simp add: addComputeBudgetIxs_def)
  have budget: "addComputeBudgetIxs (Some example_budget)
      = (Inr [SetComputeUnitLimit 400000, SetComputeUnitPrice 1000]
          :: js_error + int list instruction list)"
    by (simp add: addComputeBudgetIxs_def example_budget_def setComputeUnitLimit_def
        setComputeUnitPrice_def bindE_def)
  have "buildFlashloanTx example_env (Some example_rpc) (Some example_payer) (Some ''mintIn'')
      (Some 1000) (Some ?two) (Some example_flash) None None
     = Inr \<lparr>tx = [Ix [1000, 990, 990, 1001]], signers = [example_payer]\<rparr>"
    using route_length_not_validated [where env = example_env and k = example_payer
        and c = example_rpc and lm = "Some ''mintIn''" and bp = None and la = "Some 1000"
        and mintKey = "Some ''mintIn''" and borrowerKey = None and build = example_flash
        and cb = None and budgetIxs = "[]" and legs = ?two
        and ixss = "[[[1000, 990]], [[990, 1001]]]"
        and flashIx = "[1000, 990, 990, 1001]", THEN conjunct1, THEN mp] two keys none
    by (simp add: example_flash_def)
  moreover
  have "buildFlashloanTx example_env (Some example_rpc) (Some example_payer) (Some ''mintIn'')
      (Some 1000) (Some ?four) (Some example_flash) None (Some example_budget)
     = Inr \<lparr>tx = [SetComputeUnitLimit 400000, SetComputeUnitPrice 1000,
                  Ix [1000, 990, 990, 980, 980, 970, 970, 1001]],
             signers = [example_payer]\<rparr>"
    using route_length_not_validated [where env = example_env and k = example_payer
        and c = example_rpc and lm = "Some ''mintIn''" and bp = None and la = "Some 1000"
        and mintKey = "Some ''mintIn''" and borrowerKey = None and build = example_flash
        and cb = "Some example_budget"
        and budgetIxs = "[SetComputeUnitLimit 400000, SetComputeUnitPrice 1000]"
        and legs = ?four
        and ixss = "[[[1000, 990]], [[990, 980]], [[980, 970]], [[970, 1001]]]"
        and flashIx = "[1000, 990, 990, 980, 980, 970, 970, 1001]", THEN conjunct1, THEN mp]
      four keys budget
    by (simp add: example_flash_def)
  moreover
  have "executeRoute example_env (Some example_rpc) (Some example_payer) (Some ?two)
      (Some example_budget) example_opts = Inr ''signature''"
    using route_length_not_validated [where env = example_env and k = example_payer
        and rpc = example_rpc and cb = "Some example_budget"
        and budgetIxs = "[SetComputeUnitLimit 400000, SetComputeUnitPrice 1000]"
        and opts = example_opts and sig = "''signature''"
        and blockhash = "''blockhash''" and legs = ?two
        and ixss = "[[[1000, 990]], [[990, 1001]]]", THEN conjunct2, THEN mp] two budget
    by (simp add: example_rpc_def example_opts_def)
  moreover
  have "executeRoute example_env (Some example_rpc) (Some example_payer) (Some ?four) None
      example_opts = Inr ''signature''"
    using route_length_not_validated [where env = example_env and k = example_payer
        and rpc = example_rpc and cb = None and budgetIxs = "[]"
        and opts = example_opts and sig = "''signature''"
        and blockhash = "''blockhash''" and legs = ?four
        and ixss = "[[[1000, 990]], [[990, 980]], [[980, 970]], [[970, 1001]]]", THEN conjunct2, THEN mp]
      four none
    by (simp add: example_rpc_def example_opts_def)
  ultimately show ?thesis
    by (intro conjI)
qed

text \<open>
  A compute budget outside of the encodable range makes both functions throw, whatever
  the legs: \<^verbatim>\<open>executeRoute\<close> before it looks at a leg, \<^verbatim>\<open>buildFlashloanTx\<close> after the
  flashloan instruction is built.
\<close>

lemma compute_budget_out_of_range:
  "executeRoute example_env (Some example_rpc) (Some example_payer)
      (Some [example_leg 1000 990, example_leg 990 1001])
      (Some \<lparr>unitLimit = Some (2 ^ 32), unitPriceMicroLamports = None\<rparr>) example_opts
     = Inl RangeError"
  "buildFlashloanTx example_env (Some example_rpc) (Some example_payer) (Some ''mintIn'')
      (Some 1000) (Some [example_leg 1000 990, example_leg 990 1001]) (Some example_flash)
      None (Some \<lparr>unitLimit = None, unitPriceMicroLamports = Some (- 1)\<rparr>)
     = Inl RangeError"
proof -
  have built: "perHopIxs example_env ''payer'' (Some example_rpc) 0
      [example_leg 1000 990, example_leg 990 1001] = Inr [[1000, 990], [990, 1001]]"
    using perHopIxs_Inr_I [where env = example_env and payer = "''payer''"
        and conn = "Some example_rpc" and i = 0
        and legs = "[example_leg 1000 990, example_leg 990 1001]"
        and ixss = "[[[1000, 990]], [[990, 1001]]]"]
    by (simp add: example_leg_built)
  show "executeRoute example_env (Some example_rpc) (Some example_payer)
      (Some [example_leg 1000 990, example_leg 990 1001])
      (Some \<lparr>unitLimit = Some (2 ^ 32), unitPriceMicroLamports = None\<rparr>) example_opts
     = Inl RangeError"
    by (simp add: executeRoute_def addComputeBudgetIxs_def setComputeUnitLimit_def bindE_def
        ensure_def)
  show "buildFlashloanTx example_env (Some example_rpc) (Some example_payer) (Some ''mintIn'')
      (Some 1000) (Some [example_leg 1000 990, example_leg 990 1001]) (Some example_flash)
      None (Some \<lparr>unitLimit = None, unitPriceMicroLamports = Some (- 1)\<rparr>)
     = Inl RangeError"
    using built
    by (simp add: buildFlashloanTx_def addComputeBudgetIxs_def setComputeUnitPrice_def
        bindE_def ensure_def optKey_def truthy_opt_def truthy_str_def pubkeyOf_def
        example_env_def example_flash_def example_payer_def)
qed

lemma ndigits_pos: "0 < ndigits n"
  by (subst ndigits.simps) simp

lemma ndigits_bounds:
  "0 < n \<Longrightarrow> 10 ^ (ndigits n - 1) \<le> n \<and> n < 10 ^ ndigits n"
proof (induction n rule: ndigits.induct)
  case (1 n)
  show ?case
  proof (cases "n < 10")
    case True
    then have "ndigits n = 1"
      by (subst ndigits.simps) simp
    with True "1.prems" show ?thesis
      by simp
  next
    case False
    then have pos: "0 < n div 10"
      by simp
    define d where "d = ndigits (n div 10)"
    from "1.IH" [OF False pos] have lo: "10 ^ (d - 1) \<le> n div 10" and hi: "n div 10 < 10 ^ d"
      by (simp_all add: d_def)
    have d: "0 < d"
      by (simp add: d_def ndigits_pos)
    have nd: "ndigits n = Suc d"
      unfolding d_def using False by (subst ndigits.simps) simp
    from d have "(10::nat) ^ d = 10 * 10 ^ (d - 1)"
      by (cases d) simp_all
    with lo have "10 ^ d \<le> 10 * (n div 10)"
      by simp
    moreover have "10 * (n div 10) \<le> n"
      by (rule times_div_less_eq_dividend)
    ultimately have lower: "10 ^ d \<le> n"
      by (rule order_trans)
    from hi have "n div 10 + 1 \<le> 10 ^ d"
      by simp
    then have "10 * (n div 10 + 1) \<le> 10 * 10 ^ d"
      by simp
    moreover have "n < 10 * (n div 10 + 1)"
      using dividend_less_times_div [of 10 n] by simp
    ultimately have upper: "n < 10 ^ Suc d"
      by simp
    from lower upper nd show ?thesis
      by simp
  qed
qed

lemma p10_powi: "p10 e = 10 powi e"
  by (simp add: p10_def power_int_def inverse_eq_divide power_one_over)

lemma p10_pos: "0 < p10 e"
  by (simp add: p10_def)

lemma p10_add: "p10 (a + b) = p10 a * p10 b"
  by (simp add: p10_powi power_int_add)

lemma p10_nat: "p10 (int n) = 10 ^ n"
  by (simp add: p10_def)

lemma p10_neg_nat: "p10 (- int n) = 1 / 10 ^ n"
  by (cases "n = 0") (simp_all add: p10_def)

lemma expo_bounds:
  assumes "0 < r"
  shows "p10 (expo r) \<le> r" and "r < p10 (expo r + 1)"
proof -
  have "p10 (expo r) \<le> r \<and> r < p10 (expo r + 1)"
  proof (cases "1 \<le> r")
    case True
    define n where "n = nat \<lfloor>r\<rfloor>"
    define d where "d = ndigits n"
    from True have n: "0 < n" "of_nat n \<le> r" "r < of_nat n + 1"
      by (simp_all add: n_def floor_less_iff) linarith+
    from ndigits_bounds [OF n(1)] have lo: "10 ^ (d - 1) \<le> n" and hi: "n < 10 ^ d"
      by (simp_all add: d_def)
    have dpos: "0 < d"
      by (simp add: d_def ndigits_pos)
    from True have e: "expo r = int (d - 1)"
      using dpos by (simp add: expo_def d_def n_def)
    from lo have "(of_nat (10 ^ (d - 1)) :: rat) \<le> of_nat n"
      by (simp only: of_nat_le_iff)
    then have "(10::rat) ^ (d - 1) \<le> of_nat n"
      by simp
    from this n(2) have "(10::rat) ^ (d - 1) \<le> r"
      by (rule order_trans)
    then have lower: "p10 (expo r) \<le> r"
      by (simp add: e p10_nat)
    from hi have "n + 1 \<le> 10 ^ d"
      by simp
    then have "(of_nat (n + 1) :: rat) \<le> of_nat (10 ^ d)"
      by (simp only: of_nat_le_iff)
    then have "of_nat n + 1 \<le> (10::rat) ^ d"
      by simp
    from n(3) this have "r < 10 ^ d"
      by (rule less_le_trans)
    moreover from dpos have "expo r + 1 = int d"
      by (simp add: e)
    ultimately have upper: "r < p10 (expo r + 1)"
      by (simp add: p10_nat)
    from lower upper show ?thesis ..
  next
    case False
    with assms have r: "0 < r" "r < 1"
      by simp_all
    define s where "s = 1 / r"
    from r have s: "1 < s"
      by (simp add: s_def)
    define m where "m = nat (\<lceil>s\<rceil> - 1)"
    define d where "d = ndigits m"
    from s have c: "2 \<le> \<lceil>s\<rceil>"
      by (simp add: le_ceiling_iff) 
    then have m: "0 < m" "of_nat m < s" "s \<le> of_nat m + 1"
      by (simp_all add: m_def) (linarith+)?
    from ndigits_bounds [OF m(1)] have lo: "10 ^ (d - 1) \<le> m" and hi: "m < 10 ^ d"
      by (simp_all add: d_def)
    have dpos: "0 < d"
      by (simp add: d_def ndigits_pos)
    from False have e: "expo r = - int d"
      by (simp add: expo_def d_def m_def s_def)
    from lo have "(of_nat (10 ^ (d - 1)) :: rat) \<le> of_nat m"
      by (simp only: of_nat_le_iff)
    then have "(10::rat) ^ (d - 1) \<le> of_nat m"
      by simp
    from this m(2) have slo: "10 ^ (d - 1) < s"
      by (rule le_less_trans)
    from hi have "m + 1 \<le> 10 ^ d"
      by simp
    then have "(of_nat (m + 1) :: rat) \<le> of_nat (10 ^ d)"
      by (simp only: of_nat_le_iff)
    then have "of_nat m + 1 \<le> (10::rat) ^ d"
      by simp
    from m(3) this have shi: "s \<le> 10 ^ d"
      by (rule order_trans)
    from shi r have lower: "p10 (expo r) \<le> r"
      by (simp add: e p10_neg_nat s_def field_simps)
    from dpos have "expo r + 1 = - int (d - 1)"
      by (simp add: e)
    with slo r have upper: "r < p10 (expo r + 1)"
      by (simp add: p10_neg_nat s_def field_simps)
    from lower upper show ?thesis ..
  qed
  then show "p10 (expo r) \<le> r" and "r < p10 (expo r + 1)"
    by simp_all
qed

lemma p10_mono: "a \<le> b \<Longrightarrow> p10 a \<le> p10 b"
  by (simp add: p10_powi power_int_increasing)

lemma p10_less_D: "p10 a < p10 b \<Longrightarrow> a < b"
  using p10_mono [of b a] by (cases "a < b") simp_all

lemma p10_le_D: "p10 a \<le> p10 b \<Longrightarrow> a \<le> b"
proof (rule ccontr)
  assume le: "p10 a \<le> p10 b" and "\<not> a \<le> b"
  then have "b < a" by simp
  then have "p10 b < p10 a"
    by (simp add: p10_powi power_int_strict_increasing)
  with le show False by simp
qed

lemma p10_neg: "p10 (- j) = 1 / p10 j"
proof -
  have "p10 (- j) * p10 j = 1"
    by (simp add: p10_add [symmetric] p10_def)
  then show ?thesis
    using p10_pos [of j] by (simp add: field_simps)
qed

lemma round_sig_of_scaled_int:
  assumes "0 < r" and "r / p10 (expo r - int (precision cfg) + 1) = of_int N"
  shows "round_sig cfg r = r"
proof -
  define u where "u = p10 (expo r - int (precision cfg) + 1)"
  have u: "0 < u"
    by (simp add: u_def p10_pos)
  from assms(2) have q: "r / u = of_int N"
    by (simp add: u_def)
  have half: "\<lfloor>(of_int N :: rat) + 1 / 2\<rfloor> = N"
    by (rule floor_unique) simp_all
  from q u have r: "r = of_int N * u"
    by (simp add: field_simps)
  from assms(1) have "round_sig cfg r = of_int N * u"
    unfolding round_sig_def Let_def
    by (cases "rounding cfg") (simp_all add: assms(2) half u_def)
  with r show ?thesis
    by simp
qed

lemma round_sig_exact:
  assumes m: "0 < m" "m < 10 ^ precision cfg"
  shows "round_sig cfg (of_int m / 10 ^ k) = of_int m / 10 ^ k"
proof -
  define p where "p = precision cfg"
  define r where "r = (of_int m :: rat) / 10 ^ k"
  define e where "e = expo r"
  define j where "j = int p - 1 - e"
  from m(1) have rpos: "0 < r"
    by (simp add: r_def)
  have "(of_int m :: rat) < of_int (10 ^ p)"
    using m(2) unfolding p_def by (simp only: of_int_less_iff)
  then have "r < 10 ^ p / 10 ^ k"
    by (simp add: r_def divide_strict_right_mono)
  also have "\<dots> = p10 (int p - int k)"
    using p10_add [of "int p" "- int k"] by (simp add: p10_nat p10_neg_nat)
  finally have "r < p10 (int p - int k)" .
  with expo_bounds(1) [OF rpos] have "p10 e < p10 (int p - int k)"
    by (simp add: e_def)
  then have "e < int p - int k"
    by (rule p10_less_D)
  then have j: "int k \<le> j"
    by (simp add: j_def)
  then have jk: "nat j = k + (nat j - k)"
    by simp
  have "r / p10 (expo r - int (precision cfg) + 1) = r / p10 (- j)"
    by (simp add: j_def e_def p_def algebra_simps)
  also have "\<dots> = r * p10 j"
    by (simp add: p10_neg)
  also have "p10 j = 10 ^ nat j"
    using j by (simp add: p10_def)
  also have "r * 10 ^ nat j = of_int m * 10 ^ (nat j - k)"
    by (subst jk) (simp add: r_def power_add)
  also have "\<dots> = of_int (m * 10 ^ (nat j - k))"
    by simp
  finally show ?thesis
    unfolding r_def [symmetric] using rpos by (rule round_sig_of_scaled_int [rotated])
qed

lemma floor_round_sig_quotient:
  fixes A B :: int
  assumes A: "0 < A" and B: "0 < B" and small: "A \<le> 10 ^ (precision cfg - 1)"
    and p: "0 < precision cfg"
  shows "\<lfloor>round_sig cfg (of_int A / of_int B)\<rfloor> = A div B"
proof -
  define p where "p = precision cfg"
  define q where "q = (of_int A :: rat) / of_int B"
  define n where "n = A div B"
  define e where "e = expo q"
  define j where "j = int p - 1 - e"
  define u where "u = p10 (e - int p + 1)"
  define U where "U = (10::int) ^ nat j"
  from A B have qpos: "0 < q"
    by (simp add: q_def)
  have upos: "0 < u"
    by (simp add: u_def p10_pos)
  have fl: "\<lfloor>q\<rfloor> = n"
    by (simp add: q_def n_def floor_divide_of_int_eq)
  have n: "of_int n \<le> q" "q < of_int n + 1"
    using of_int_floor_le [of q] floor_correct [of q] by (simp_all add: fl)
  have pe: "p10 e \<le> q"
    using expo_bounds(1) [OF qpos] by (simp add: e_def)
  have pp: "p10 (int p - 1) = 10 ^ (p - 1)"
  proof (cases p)
    case 0
    with p show ?thesis
      by (simp add: p_def)
  next
    case (Suc p')
    then show ?thesis
      by (simp add: p10_nat)
  qed
  have Ap: "(of_int A :: rat) \<le> p10 (int p - 1)"
  proof -
    have "(of_int A :: rat) \<le> of_int (10 ^ (p - 1))"
      using small unfolding p_def by (simp only: of_int_le_iff)
    then show ?thesis
      by (simp add: pp)
  qed
  have qA: "q \<le> of_int A"
  proof -
    have "(1::rat) \<le> of_int B"
      using B by simp
    then have "(of_int A :: rat) / of_int B \<le> of_int A / 1"
      using A by (intro divide_left_mono) simp_all
    then show ?thesis
      by (simp add: q_def)
  qed
  from pe qA Ap have "p10 e \<le> p10 (int p - 1)"
    by linarith
  then have "e \<le> int p - 1"
    by (rule p10_le_D)
  then have j: "0 \<le> j"
    by (simp add: j_def)
  have u: "u = 1 / of_int U"
  proof -
    have "u = p10 (- j)"
      by (simp add: u_def j_def algebra_simps)
    also have "\<dots> = 1 / p10 j"
      by (rule p10_neg)
    also have "p10 j = of_int U"
      using j by (simp add: p10_def U_def)
    finally show ?thesis .
  qed
  have Upos: "0 < U"
    by (simp add: U_def)
  have Bu: "of_int B * u \<le> 1"
  proof -
    have "of_int B * p10 e \<le> of_int B * q"
      using pe by (rule mult_left_mono) (use B in simp)
    also have "\<dots> = of_int A"
      using B by (simp add: q_def)
    also have "\<dots> \<le> p10 (int p - 1)"
      by (rule Ap)
    finally have "of_int B * p10 e * p10 (- (int p - 1)) \<le> p10 (int p - 1) * p10 (- (int p - 1))"
      by (rule mult_right_mono) (rule less_imp_le [OF p10_pos])
    moreover have "p10 e * p10 (- (int p - 1)) = u"
      by (simp add: u_def p10_add [symmetric] algebra_simps)
    moreover have "p10 (int p - 1) * p10 (- (int p - 1)) = 1"
      by (simp add: p10_add [symmetric] p10_def)
    ultimately show ?thesis
      by (simp add: mult.assoc)
  qed
  define N where "N = (case rounding cfg of ROUND_DOWN \<Rightarrow> \<lfloor>q / u\<rfloor> | ROUND_HALF_UP \<Rightarrow> \<lfloor>q / u + 1 / 2\<rfloor>)"
  have rs: "round_sig cfg q = of_int N * u"
    using qpos unfolding round_sig_def Let_def N_def u_def e_def p_def
    by (cases "rounding cfg") simp_all
  have N_lo: "\<lfloor>q / u\<rfloor> \<le> N"
  proof (cases "rounding cfg")
    case ROUND_DOWN
    then show ?thesis
      by (simp add: N_def)
  next
    case ROUND_HALF_UP
    have "\<lfloor>q / u\<rfloor> \<le> \<lfloor>q / u + 1 / 2\<rfloor>"
      by (rule floor_mono) simp
    with ROUND_HALF_UP show ?thesis
      by (simp add: N_def)
  qed
  have N_hi: "of_int N \<le> q / u + 1 / 2"
  proof (cases "rounding cfg")
    case ROUND_DOWN
    then have "of_int N \<le> q / u"
      by (simp add: N_def)
    then show ?thesis
      by linarith
  next
    case ROUND_HALF_UP
    then show ?thesis
      by (simp add: N_def)
  qed
  have lower: "of_int n \<le> round_sig cfg q"
  proof -
    have "of_int n * of_int U \<le> q * of_int U"
      using n(1) by (rule mult_right_mono) (use Upos in simp)
    then have "of_int (n * U) \<le> q / u"
      by (simp add: u)
    then have "n * U \<le> \<lfloor>q / u\<rfloor>"
      by (simp only: le_floor_iff)
    with N_lo have "n * U \<le> N"
      by simp
    then have "(of_int (n * U) :: rat) \<le> of_int N"
      by (simp only: of_int_le_iff)
    then have "of_int (n * U) * u \<le> of_int N * u"
      by (rule mult_right_mono) (rule less_imp_le [OF upos])
    moreover have "of_int (n * U) * u = of_int n"
      using Upos by (simp add: u)
    ultimately have "of_int n \<le> of_int N * u"
      by (simp only:)
    then show ?thesis
      by (simp only: rs)
  qed
  have upper: "round_sig cfg q < of_int n + 1"
  proof -
    have "A = B * n + A mod B"
      by (simp add: n_def)
    moreover have "A mod B < B"
      using B by simp
    ultimately have "A < B * n + B"
      by linarith
    then have "A < B * (n + 1)"
      by (simp add: distrib_left)
    then have "A + 1 \<le> B * (n + 1)"
      by simp
    then have "(of_int (A + 1) :: rat) \<le> of_int (B * (n + 1))"
      by (simp only: of_int_le_iff)
    then have "of_int A + 1 \<le> of_int B * (of_int n + 1 :: rat)"
      by simp
    then have "(of_int A + 1) / of_int B \<le> (of_int n + 1 :: rat)"
      using B by (simp add: field_simps)
    then have gap: "q + 1 / of_int B \<le> of_int n + 1"
      by (simp add: q_def add_divide_distrib)
    from Bu B have uB: "u \<le> 1 / of_int B"
      by (simp add: field_simps)
    have "round_sig cfg q \<le> (q / u + 1 / 2) * u"
      unfolding rs using N_hi by (rule mult_right_mono) (rule less_imp_le [OF upos])
    also have "\<dots> = q + u / 2"
      using upos by (simp add: field_simps)
    also have "\<dots> < q + u"
      using upos by simp
    also have "\<dots> \<le> q + 1 / of_int B"
      using uB by simp
    also note gap
    finally show ?thesis .
  qed
  from lower upper have "\<lfloor>round_sig cfg q\<rfloor> = n"
    by (intro floor_unique) simp_all
  then show ?thesis
    by (simp add: q_def n_def)
qed

lemma int_div_less:
  fixes A B c :: int
  assumes B: "0 < B" and less: "A < c * B"
  shows "A div B < c"
proof (rule ccontr)
  assume "\<not> A div B < c"
  then have "c \<le> A div B"
    by simp
  then have "c * B \<le> (A div B) * B"
    by (rule mult_right_mono) (use B in simp)
  moreover have "A = (A div B) * B + A mod B"
    by simp
  moreover have "0 \<le> A mod B"
    using B by simp
  ultimately show False
    using less by linarith
qed

lemma cpmm_exact_out_bounds:
  assumes "0 < rin" "0 < rout" "0 < dx" "0 \<le> bps" "bps < 10000"
  shows "0 \<le> cpmm_exact_out rin rout bps dx" and "cpmm_exact_out rin rout bps dx < rout"
proof -
  define m where "m = dx * (10000 - bps)"
  from assms have m: "0 < m"
    by (simp add: m_def)
  with assms have B: "0 < 10000 * rin + m"
    by simp
  from m assms have A: "0 \<le> m * rout"
    by simp
  have out: "cpmm_exact_out rin rout bps dx = (m * rout) div (10000 * rin + m)"
    by (simp add: cpmm_exact_out_def m_def)
  from A B show "0 \<le> cpmm_exact_out rin rout bps dx"
    by (simp add: out pos_imp_zdiv_nonneg_iff)
  have "0 < rout * (10000 * rin)"
    using assms by simp
  then have "m * rout < rout * (10000 * rin + m)"
    by (simp add: algebra_simps)
  with B show "cpmm_exact_out rin rout bps dx < rout"
    unfolding out by (rule int_div_less)
qed

lemma round_sig_fraction:
  assumes "0 \<le> m" "m < 10 ^ precision cfg"
  shows "round_sig cfg (of_int m / 10000) = of_int m / 10000"
proof (cases "m = 0")
  case True
  then show ?thesis
    by (simp add: round_sig_def)
next
  case False
  with assms have "0 < m"
    by simp
  from round_sig_exact [OF this assms(2), of 4] show ?thesis
    by simp
qed

lemma cpmm_out_rounded:
  fixes rin rout dx bps :: int
  assumes pos: "0 < rin" "0 < rout" "0 < dx" and fee: "0 \<le> bps" "bps < 10000"
    and prec: "5 \<le> precision cfg"
    and A: "dx * (10000 - bps) * rout \<le> 10 ^ (precision cfg - 1)"
    and B: "10000 * rin + dx * (10000 - bps) < 10 ^ precision cfg"
  defines "inAfterFee \<equiv>
     dec_times cfg (of_int dx) (dec_minus cfg 1 (round_sig cfg (of_int bps / 10000)))"
  shows "dec_div cfg (dec_times cfg inAfterFee (of_int rout)) (dec_plus cfg (of_int rin) inAfterFee)
      = Some (round_sig cfg (of_int (dx * (10000 - bps) * rout)
                / of_int (10000 * rin + dx * (10000 - bps))))"
proof -
  define p where "p = precision cfg"
  define m where "m = dx * (10000 - bps)"
  from pos fee have m: "0 < m"
    by (simp add: m_def)
  have p1: "(10::int) ^ (p - 1) < 10 ^ p"
    using prec by (simp add: p_def)
  have "(10::int) ^ 4 < 10 ^ p"
    using prec unfolding p_def by (intro power_strict_increasing) simp_all
  then have small4: "(10000::int) < 10 ^ p"
    by simp
  have A': "m * rout \<le> 10 ^ (p - 1)"
    using A by (simp only: m_def p_def)
  have "m * 1 \<le> m * rout"
    using m pos by (intro mult_left_mono) simp_all
  with A' p1 have mp: "m < 10 ^ p"
    by linarith
  from A' p1 have Ap: "m * rout < 10 ^ p"
    by linarith
  have feeRate: "round_sig cfg (of_int bps / 10000) = of_int bps / 10000"
    using fee small4 by (intro round_sig_fraction) (simp_all add: p_def)
  have oneMinus: "dec_minus cfg 1 (of_int bps / 10000) = of_int (10000 - bps) / 10000"
  proof -
    have "(1::rat) - of_int bps / 10000 = of_int (10000 - bps) / 10000"
      by (simp add: field_simps)
    moreover have "round_sig cfg (of_int (10000 - bps) / 10000) = of_int (10000 - bps) / 10000"
      using fee small4 by (intro round_sig_fraction) (simp_all add: p_def)
    ultimately show ?thesis
      by (simp only: dec_minus_def)
  qed
  have inAfter: "inAfterFee = of_int m / 10000"
  proof -
    have "(of_int dx :: rat) * (of_int (10000 - bps) / 10000) = of_int m / 10000"
      by (simp add: m_def)
    moreover have "round_sig cfg (of_int m / 10000) = of_int m / 10000"
      using m mp by (intro round_sig_fraction) (simp_all add: p_def)
    ultimately show ?thesis
      by (simp only: inAfterFee_def feeRate oneMinus dec_times_def)
  qed
  have prod: "dec_times cfg inAfterFee (of_int rout) = of_int (m * rout) / 10000"
  proof -
    have "(of_int m / 10000 :: rat) * of_int rout = of_int (m * rout) / 10000"
      by simp
    moreover have "round_sig cfg (of_int (m * rout) / 10000) = of_int (m * rout) / 10000"
      using m pos Ap by (intro round_sig_fraction) (simp_all add: p_def)
    ultimately show ?thesis
      by (simp only: inAfter dec_times_def)
  qed
  have sum: "dec_plus cfg (of_int rin) inAfterFee = of_int (10000 * rin + m) / 10000"
  proof -
    have "(of_int rin :: rat) + of_int m / 10000 = of_int (10000 * rin + m) / 10000"
      by (simp add: field_simps)
    moreover have "round_sig cfg (of_int (10000 * rin + m) / 10000)
        = of_int (10000 * rin + m) / 10000"
      using m pos B by (intro round_sig_fraction) (simp_all add: p_def m_def)
    ultimately show ?thesis
      by (simp only: inAfter dec_plus_def)
  qed
  have nz: "(of_int (10000 * rin + m) / 10000 :: rat) \<noteq> 0"
    using m pos by simp
  have quot: "(of_int (m * rout) / 10000 :: rat) / (of_int (10000 * rin + m) / 10000)
      = of_int (m * rout) / of_int (10000 * rin + m)"
    by simp
  have "dec_div cfg (dec_times cfg inAfterFee (of_int rout)) (dec_plus cfg (of_int rin) inAfterFee)
      = Some (round_sig cfg (of_int (m * rout) / of_int (10000 * rin + m)))"
    unfolding prod sum dec_div_def using nz by (simp only: quot if_False)
  then show ?thesis
    by (simp only: m_def)
qed

lemma floor_rat_numeral [simp]:
  "\<lfloor>numeral a / numeral b :: rat\<rfloor> = numeral a div numeral b"
  using floor_divide_of_int_eq [of "numeral a" "numeral b", where ?'a = rat] by simp

lemma ceiling_rat_numeral [simp]:
  "\<lceil>numeral a / numeral b :: rat\<rceil> = - ((- numeral a) div numeral b)"
  using ceiling_divide_eq_div [of "numeral a" "numeral b", where ?'a = rat] by simp

lemmas decimal_eval =
  round_sig_def dec_plus_def dec_minus_def dec_times_def dec_div_def toFixed0_def
  expo_def p10_def ndigits.simps Let_def

lemmas quote_eval =
  quoteExactIn_def CPMMAdapter_def example_cpmm_pool_def empty_pool_def nullish_or_def
  bindE_def ensure_def toDec_def new_Decimal_def isInteger_def

lemma toDec_positive_not_Nullish: "toDec v = Inr r \<Longrightarrow> 0 < r \<Longrightarrow> v \<noteq> Nullish"
  by (auto simp add: toDec_def)

lemma quoteExactIn_out:
  fixes x y dx bps :: int
  assumes pos: "0 < x" "0 < y" "0 < dx" and fee: "0 \<le> bps" "bps < 10000"
    and prec: "5 \<le> precision cfg"
    and fields: "toDec (xReserveRaw this) = Inr (of_int x)"
      "toDec (yReserveRaw this) = Inr (of_int y)"
      "toDec inAmountAtomic = Inr (of_int dx)"
      "new_Decimal (adapter_feeBps this) = Inr (of_int bps)"
      "new_Decimal slippageBps = Inr s"
      "isInteger (tokenXDecimals this)" "isInteger (tokenYDecimals this)"
    and dir: "rin = (if swapForY then x else y)" "rout = (if swapForY then y else x)"
    and A: "dx * (10000 - bps) * rout \<le> 10 ^ (precision cfg - 1)"
    and B: "10000 * rin + dx * (10000 - bps) < 10 ^ precision cfg"
  shows "\<exists>q. quoteExactIn cfg this inAmountAtomic swapForY slippageBps = Inr q
           \<and> outAmountRaw q = Some (cpmm_exact_out rin rout bps dx)"
proof -
  from pos dir have rpos: "0 < rin" "0 < rout"
    by (simp_all split: if_splits)
  have nn: "xReserveRaw this \<noteq> Nullish" "yReserveRaw this \<noteq> Nullish"
    "inAmountAtomic \<noteq> Nullish"
    using fields(1-3) pos by (auto dest!: toDec_positive_not_Nullish)
  note out = cpmm_out_rounded [OF rpos pos(3) fee prec A B]
  have fl: "\<lfloor>round_sig cfg (of_int (dx * (10000 - bps) * rout)
                / of_int (10000 * rin + dx * (10000 - bps)))\<rfloor>
      = cpmm_exact_out rin rout bps dx"
    unfolding cpmm_exact_out_def
  proof (rule floor_round_sig_quotient)
    show "0 < dx * (10000 - bps) * rout"
      using rpos pos fee by simp
    show "0 < 10000 * rin + dx * (10000 - bps)"
      using rpos pos fee by (simp add: add_pos_nonneg)
    show "dx * (10000 - bps) * rout \<le> 10 ^ (precision cfg - 1)"
      by (rule A)
    show "0 < precision cfg"
      using prec by simp
  qed
  show ?thesis
  proof (cases swapForY)
    case True
    with dir have d: "rin = x" "rout = y"
      by simp_all
    from out fl show ?thesis
      unfolding quoteExactIn_def Let_def d
      by (simp add: nn fields pos True bindE_def ensure_def)
  next
    case False
    with dir have d: "rin = y" "rout = x"
      by simp_all
    from out fl show ?thesis
      unfolding quoteExactIn_def Let_def d
      by (simp add: nn fields pos False bindE_def ensure_def)
  qed
qed

text \<open>
  Where no operation of the quote rounds, its output is the exact floor. For integer
  reserves x, y > 0, an integer fee of 0 to 9999 basis points and an integer input
  dx > 0, with at least 5 digits of precision: whenever dx (10000 - bps) y' is at most
  10^(precision - 1) and 10000 x' + dx (10000 - bps) is below 10^precision (x' the
  reserve of the input side, y' of the output side), the quote succeeds with the output
  floor(dx (1 - f) y' / (x' + dx (1 - f))), which is at least 0 and less than y'.
\<close>

lemma quoteExactIn_exact_when_representable:
  fixes x y dx bps :: int
  assumes "0 < x" "0 < y" "0 < dx" and "0 \<le> bps" "bps < 10000"
    and "5 \<le> precision cfg"
    and "toDec (xReserveRaw this) = Inr (of_int x)"
      "toDec (yReserveRaw this) = Inr (of_int y)"
      "toDec inAmountAtomic = Inr (of_int dx)"
      "new_Decimal (adapter_feeBps this) = Inr (of_int bps)"
      "new_Decimal slippageBps = Inr s"
      "isInteger (tokenXDecimals this)" "isInteger (tokenYDecimals this)"
    and "rin = (if swapForY then x else y)" "rout = (if swapForY then y else x)"
    and "dx * (10000 - bps) * rout \<le> 10 ^ (precision cfg - 1)"
    and "10000 * rin + dx * (10000 - bps) < 10 ^ precision cfg"
  shows "(\<exists>q. quoteExactIn cfg this inAmountAtomic swapForY slippageBps = Inr q
            \<and> outAmountRaw q = Some (cpmm_exact_out rin rout bps dx))
         \<and> 0 \<le> cpmm_exact_out rin rout bps dx \<and> cpmm_exact_out rin rout bps dx < rout"
proof (intro conjI)
  show "\<exists>q. quoteExactIn cfg this inAmountAtomic swapForY slippageBps = Inr q
            \<and> outAmountRaw q = Some (cpmm_exact_out rin rout bps dx)"
    using assms by (rule quoteExactIn_out)
  from assms(1,2,14,15) have rpos: "0 < rin" "0 < rout"
    by (simp_all split: if_splits)
  from cpmm_exact_out_bounds [OF rpos assms(3-5)]
  show "0 \<le> cpmm_exact_out rin rout bps dx" and "cpmm_exact_out rin rout bps dx < rout"
    by simp_all
qed

text \<open>
  In particular, under the configuration of utils/decimals.js (40 digits, round-down)
  the quote of a pool record with integer reserves and fee is the exact floor up to
  products of 10^39.
\<close>

lemma quoteExactIn_exact_at_40_digits:
  fixes x y dx bps :: int
  assumes "0 < x" "0 < y" "0 < dx" "0 \<le> bps" "bps < 10000"
    and "dx * (10000 - bps) * y \<le> 10 ^ 39"
    and "10000 * x + dx * (10000 - bps) < 10 ^ 40"
  shows "map_sum id outAmountRaw
     (quoteExactIn utils_decimals_config
        (CPMMAdapter ((example_cpmm_pool (of_int x) (of_int y))\<lparr>feeBps := Num (of_int bps)\<rparr>))
        (NumText (of_int dx)) True (Num 50))
     = Inr (Some (cpmm_exact_out x y bps dx))"
proof -
  let ?adapter = "CPMMAdapter ((example_cpmm_pool (of_int x) (of_int y))\<lparr>feeBps := Num (of_int bps)\<rparr>)"
  have fields: "toDec (xReserveRaw ?adapter) = Inr (of_int x)"
    "toDec (yReserveRaw ?adapter) = Inr (of_int y)"
    "toDec (NumText (of_int dx)) = Inr (of_int dx)"
    "new_Decimal (adapter_feeBps ?adapter) = Inr (of_int bps)"
    "new_Decimal (Num 50) = Inr 50"
    "isInteger (tokenXDecimals ?adapter)" "isInteger (tokenYDecimals ?adapter)"
    by (simp_all add: CPMMAdapter_def example_cpmm_pool_def empty_pool_def nullish_or_def
        toDec_def new_Decimal_def isInteger_def)
  have "\<exists>q. quoteExactIn utils_decimals_config ?adapter (NumText (of_int dx)) True (Num 50) = Inr q
            \<and> outAmountRaw q = Some (cpmm_exact_out x y bps dx)"
    using assms(1-5) _ fields _ _
  proof (rule quoteExactIn_out)
    show "5 \<le> precision utils_decimals_config"
      by (simp add: utils_decimals_config_def)
    show "x = (if True then x else y)"
      by simp
    show "y = (if True then y else x)"
      by simp
    show "dx * (10000 - bps) * y \<le> 10 ^ (precision utils_decimals_config - 1)"
      using assms(6) by (simp add: utils_decimals_config_def)
    show "10000 * x + dx * (10000 - bps) < 10 ^ precision utils_decimals_config"
      using assms(7) by (simp add: utils_decimals_config_def)
  qed
  then show ?thesis
    by auto
qed

lemma CPMMAdapter_default_fee:
  "CPMMAdapter (example_cpmm_pool x y) = CPMMAdapter ((example_cpmm_pool x y)\<lparr>feeBps := Num 25\<rparr>)"
  by (simp add: CPMMAdapter_def example_cpmm_pool_def empty_pool_def nullish_or_def)

text \<open>
  C4, at the failing input. The adapter computes with \<^verbatim>\<open>require('decimal.js')\<close> as it
  comes, 20 significant digits and half-up rounding, so the quotient is rounded to 20
  digits before \<^verbatim>\<open>.floor()\<close> is taken, and a quotient within 10^-20 (relative) below an
  integer is quoted as that integer.
  \<^item> A pool of 50000000000 against 900000000000000000 atomic units without a fee field
    (so 25 basis points) and an input of 100000000169: the quotient is
    599499165613740763.99..., the quote is 599499165613740764, one atomic unit more than
    the exact floor 599499165613740763.
  \<^item> A pool of 872451397 against 454999471810113 atomic units with a fee of 4 basis
    points and an input of 381261201: the quote is 138329431923598, the exact floor
    138329431923597.
  \<^item> Reserves x = y = 1, no fee and an input of 10^21: the quote is 1 = y, not less
    than y, where the exact floor is 0.

  Under the configuration that utils/decimals.js sets for financial calculations (40
  digits, round-down), which the adapter does not load, each of these quotes is the
  exact floor. On the worked example of the specification the quote is the exact floor
  498003490 under both configurations.
\<close>

theorem quoteExactIn_overquotes_at_default_precision:
  "map_sum id outAmountRaw
     (quoteExactIn library_defaults
        (CPMMAdapter (example_cpmm_pool 50000000000 900000000000000000))
        (NumText 100000000169) True (Num 50))
     = Inr (Some 599499165613740764)
   \<and> cpmm_exact_out 50000000000 900000000000000000 25 100000000169 = 599499165613740763
   \<and> map_sum id outAmountRaw
     (quoteExactIn utils_decimals_config
        (CPMMAdapter (example_cpmm_pool 50000000000 900000000000000000))
        (NumText 100000000169) True (Num 50))
     = Inr (Some 599499165613740763)
   \<and> map_sum id outAmountRaw
     (quoteExactIn library_defaults
        (CPMMAdapter ((example_cpmm_pool 872451397 454999471810113)\<lparr>feeBps := Num 4\<rparr>))
        (NumText 381261201) True (Num 50))
     = Inr (Some 138329431923598)
   \<and> cpmm_exact_out 872451397 454999471810113 4 381261201 = 138329431923597
   \<and> map_sum id outAmountRaw
     (quoteExactIn utils_decimals_config
        (CPMMAdapter ((example_cpmm_pool 872451397 454999471810113)\<lparr>feeBps := Num 4\<rparr>))
        (NumText 381261201) True (Num 50))
     = Inr (Some 138329431923597)
   \<and> map_sum id outAmountRaw
     (quoteExactIn library_defaults
        (CPMMAdapter ((example_cpmm_pool 1 1)\<lparr>feeBps := Num 0\<rparr>))
        (NumText 1000000000000000000000) True (Num 50))
     = Inr (Some 1)
   \<and> cpmm_exact_out 1 1 0 1000000000000000000000 = 0
   \<and> map_sum id outAmountRaw
     (quoteExactIn utils_decimals_config
        (CPMMAdapter ((example_cpmm_pool 1 1)\<lparr>feeBps := Num 0\<rparr>))
        (NumText 1000000000000000000000) True (Num 50))
     = Inr (Some 0)
   \<and> map_sum id outAmountRaw
     (quoteExactIn library_defaults
        (CPMMAdapter ((example_cpmm_pool 1000000000000 500000000000)\<lparr>feeBps := Num 30\<rparr>))
        (NumText 1000000000) True (Num 50))
     = Inr (Some 498003490)
   \<and> map_sum id outAmountRaw
     (quoteExactIn utils_decimals_config
        (CPMMAdapter ((example_cpmm_pool 1000000000000 500000000000)\<lparr>feeBps := Num 30\<rparr>))
        (NumText 1000000000) True (Num 50))
     = Inr (Some 498003490)
   \<and> cpmm_exact_out 1000000000000 500000000000 30 1000000000 = 498003490"
proof (intro conjI)
  show "map_sum id outAmountRaw
     (quoteExactIn library_defaults
        (CPMMAdapter (example_cpmm_pool 50000000000 900000000000000000))
        (NumText 100000000169) True (Num 50))
     = Inr (Some 599499165613740764)"
    by (simp add: quote_eval decimal_eval library_defaults_def)
  show "cpmm_exact_out 50000000000 900000000000000000 25 100000000169 = 599499165613740763"
    by (simp add: cpmm_exact_out_def)
  show "map_sum id outAmountRaw
     (quoteExactIn utils_decimals_config
        (CPMMAdapter (example_cpmm_pool 50000000000 900000000000000000))
        (NumText 100000000169) True (Num 50))
     = Inr (Some 599499165613740763)"
    using quoteExactIn_exact_at_40_digits [of 50000000000 900000000000000000 100000000169 25]
    by (simp add: cpmm_exact_out_def CPMMAdapter_default_fee)
  show "map_sum id outAmountRaw
     (quoteExactIn library_defaults
        (CPMMAdapter ((example_cpmm_pool 872451397 454999471810113)\<lparr>feeBps := Num 4\<rparr>))
        (NumText 381261201) True (Num 50))
     = Inr (Some 138329431923598)"
    by (simp add: quote_eval decimal_eval library_defaults_def)
  show "cpmm_exact_out 872451397 454999471810113 4 381261201 = 138329431923597"
    by (simp add: cpmm_exact_out_def)
  show "map_sum id outAmountRaw
     (quoteExactIn utils_decimals_config
        (CPMMAdapter ((example_cpmm_pool 872451397 454999471810113)\<lparr>feeBps := Num 4\<rparr>))
        (NumText 381261201) True (Num 50))
     = Inr (Some 138329431923597)"
    using quoteExactIn_exact_at_40_digits [of 872451397 454999471810113 381261201 4]
    by (simp add: cpmm_exact_out_def)
  show "map_sum id outAmountRaw
     (quoteExactIn library_defaults
        (CPMMAdapter ((example_cpmm_pool 1 1)\<lparr>feeBps := Num 0\<rparr>))
        (NumText 1000000000000000000000) True (Num 50))
     = Inr (Some 1)"
    by (simp add: quote_eval decimal_eval library_defaults_def)
  show "cpmm_exact_out 1 1 0 1000000000000000000000 = 0"
    by (simp add: cpmm_exact_out_def)
  show "map_sum id outAmountRaw
     (quoteExactIn utils_decimals_config
        (CPMMAdapter ((example_cpmm_pool 1 1)\<lparr>feeBps := Num 0\<rparr>))
        (NumText 1000000000000000000000) True (Num 50))
     = Inr (Some 0)"
    using quoteExactIn_exact_at_40_digits [of 1 1 1000000000000000000000 0]
    by (simp add: cpmm_exact_out_def)
  show "map_sum id outAmountRaw
     (quoteExactIn library_defaults
        (CPMMAdapter ((example_cpmm_pool 1000000000000 500000000000)\<lparr>feeBps := Num 30\<rparr>))
        (NumText 1000000000) True (Num 50))
     = Inr (Some 498003490)"
    by (simp add: quote_eval decimal_eval library_defaults_def)
  show "map_sum id outAmountRaw
     (quoteExactIn utils_decimals_config
        (CPMMAdapter ((example_cpmm_pool 1000000000000 500000000000)\<lparr>feeBps := Num 30\<rparr>))
        (NumText 1000000000) True (Num 50))
     = Inr (Some 498003490)"
    using quoteExactIn_exact_at_40_digits [of 1000000000000 500000000000 1000000000 30]
    by (simp add: cpmm_exact_out_def)
  show "cpmm_exact_out 1000000000000 500000000000 30 1000000000 = 498003490"
    by (simp add: cpmm_exact_out_def)
qed




end
